theory Spec2Isabelle
  imports Main
begin

section \<open>SillyRPC: the presence relay of src/index.ts\<close>

text \<open>
  The plugin keeps three module-level variables (\<open>config\<close>, \<open>rpcClient\<close>,
  \<open>wsClient\<close>) and talks to two client libraries (discord-rpc and ws), to the file
  system and to the console. The embedding passes the variables around as a record,
  keeps the library objects in a heap indexed by allocation order, and appends every
  console line and every library call to a trace, so that "was a send attempted" is a
  question about the trace.
\<close>

subsection \<open>JavaScript values\<close>

text \<open>
  Values as \<open>JSON.parse\<close> and the request body deliver them, plus \<open>undefined\<close>.
  An object is the list of its own properties. Numbers are only ever forwarded, never
  computed with, so integers stand for them.
\<close>

datatype jsval =
    Undefined
  | Null
  | JBool bool
  | JNum int
  | JStr string
  | JArr "jsval list"
  | JObj "(string \<times> jsval) list"

subsection \<open>Library calls, console lines, exceptions\<close>

text \<open>
  Every call that leaves the module: \<open>fs.writeFileSync\<close>
  (with its \<open>JSON.stringify\<close> argument), the discord-rpc calls and the ws calls.
  A handle is named by its heap index.
\<close>

datatype call =
    FsWrite jsval
  | RpcNew
  | RpcRegister jsval
  | RpcLogin nat jsval
  | RpcDestroy nat
  | RpcSetActivity nat jsval
  | WsNew jsval
  | WsClose nat
  | WsSend nat string

datatype effect =
    ConsoleLog string
  | ConsoleWarn string
  | ConsoleError string
  | Called call

text \<open>
  What can be thrown: the \<open>TypeError\<close> of reading a property of \<open>null\<close> or
  \<open>undefined\<close>, and whatever a library call raises synchronously.
\<close>

datatype exn = TypeError | Raised call

subsection \<open>Library objects\<close>

text \<open>
  Modelled from the spec: the client libraries are not part of the repository, so the
  life of one of their objects follows section 3 of the spec
  (\<open>Uninitialized \<rightarrow> Connecting \<rightarrow> Ready \<rightarrow> Closed\<close>). For a WebSocket
  \<open>Ready\<close> is \<open>readyState = OPEN\<close>, \<open>Connecting\<close> is \<open>CONNECTING\<close>, and
  \<open>CLOSING\<close> and \<open>CLOSED\<close> are both \<open>Closed\<close>: the program only ever compares
  \<open>readyState\<close> with \<open>OPEN\<close>. The field \<open>target\<close> remembers the argument the
  object was built for (client id or agent URL).
\<close>

datatype phase = Uninitialized | Connecting | Ready | Closed

datatype kind = LocalRpc | RemoteWs

record handle =
  kind :: kind
  phase :: phase
  target :: jsval

text \<open>
  The parts of the environment that are not in the repository are parameters:
  which library calls raise synchronously (this may depend on the state of the
  library's objects), what \<open>JSON.stringify\<close> prints,
  what \<open>fs.readFileSync(cfgPath)\<close> delivers (\<open>None\<close> when it raises) and what
  \<open>JSON.parse\<close> makes of a text (\<open>None\<close> when it raises).
\<close>

record lib =
  throws :: "call \<Rightarrow> handle list \<Rightarrow> bool"
  stringify :: "jsval \<Rightarrow> string"
  readFile :: "string option"
  jsonParse :: "string \<Rightarrow> jsval option"

subsection \<open>Program state\<close>

text \<open>
  Lines 30-32 of the source, the heap of library objects, the trace, and whether
  \<open>init\<close> got as far as registering the routes.
\<close>

record state =
  config :: jsval
  rpcClient :: "nat option"
  wsClient :: "nat option"
  heap :: "handle list"
  trace :: "effect list"
  routes :: bool

definition emit :: "effect \<Rightarrow> state \<Rightarrow> state" where
  "emit e s = s\<lparr>trace := trace s @ [e]\<rparr>"

text \<open>A library call is recorded as attempted; then it returns or raises.\<close>

definition lib_call :: "lib \<Rightarrow> call \<Rightarrow> state \<Rightarrow> (exn + unit) \<times> state" where
  "lib_call L c s = (if throws L c (heap s) then Inl (Raised c) else Inr (), emit (Called c) s)"

text \<open>
  Property access \<open>v.k\<close> for the seven names the program reads (clientId, mode,
  agentUrl, details, state, largeImageKey, startTimestamp): a \<open>TypeError\<close> on
  \<open>null\<close> and \<open>undefined\<close>, the property or \<open>undefined\<close> on an object,
  \<open>undefined\<close> on every other value.
\<close>

fun getProp :: "jsval \<Rightarrow> string \<Rightarrow> exn + jsval" where
  "getProp Undefined k = Inl TypeError"
| "getProp Null k = Inl TypeError"
| "getProp (JObj kvs) k = Inr (case map_of kvs k of None \<Rightarrow> Undefined | Some v \<Rightarrow> v)"
| "getProp v k = Inr Undefined"

text \<open>Modelled from the spec: what the libraries do to an object's phase.\<close>

definition set_phase :: "nat \<Rightarrow> phase \<Rightarrow> state \<Rightarrow> state" where
  "set_phase h p s =
     (if h < length (heap s) then s\<lparr>heap := (heap s)[h := (heap s ! h)\<lparr>phase := p\<rparr>]\<rparr> else s)"

definition phase_of :: "state \<Rightarrow> nat \<Rightarrow> phase option" where
  "phase_of s h = (if h < length (heap s) then Some (phase (heap s ! h)) else None)"

subsection \<open>Configuration file (lines 34-51)\<close>

definition default_config :: jsval where
  "default_config = JObj [(''clientId'', JStr ''''), (''mode'', JStr ''local''), (''agentUrl'', JStr '''')]"

text \<open>\<open>loadConfig\<close> returns the configuration and the console lines it printed.\<close>

definition loadConfig :: "lib \<Rightarrow> jsval \<times> effect list" where
  "loadConfig L =
     (case readFile L of
        None \<Rightarrow> (default_config, [ConsoleWarn ''config.json not found or invalid, using defaults.''])
      | Some raw \<Rightarrow>
          (case jsonParse L raw of
             None \<Rightarrow> (default_config, [ConsoleWarn ''config.json not found or invalid, using defaults.''])
           | Some v \<Rightarrow> (v, [])))"

definition saveConfig :: "lib \<Rightarrow> jsval \<Rightarrow> state \<Rightarrow> state" where
  "saveConfig L newConfig s =
     (case lib_call L (FsWrite newConfig) s of
        (Inl e, s1) \<Rightarrow> emit (ConsoleError ''Failed to write config.json'') s1
      | (Inr u, s1) \<Rightarrow> emit (ConsoleLog ''config.json updated'') s1)"

text \<open>The module-level initialisers of lines 30-32.\<close>

definition initial :: "lib \<Rightarrow> state" where
  "initial L =
     \<lparr>config = fst (loadConfig L), rpcClient = None, wsClient = None, heap = [],
      trace = snd (loadConfig L), routes = False\<rparr>"

subsection \<open>Transports (lines 53-82)\<close>

text \<open>
  \<open>initLocalRpc\<close>: the assignment to \<open>rpcClient\<close> happens only when the constructor
  returns; \<open>RPC.register\<close> and \<open>login\<close> come after it, so an exception of theirs
  leaves the new client in \<open>rpcClient\<close>. Registering the three listeners has no effect
  of its own: what they do is \<open>rpc_listener\<close> below.
\<close>

definition initLocalRpc :: "lib \<Rightarrow> jsval \<Rightarrow> state \<Rightarrow> (exn + unit) \<times> state" where
  "initLocalRpc L clientId s =
     (case lib_call L RpcNew s of
        (Inl e, s1) \<Rightarrow> (Inl e, s1)
      | (Inr u, s1) \<Rightarrow>
          (let h = length (heap s1);
               s2 = s1\<lparr>heap := heap s1 @ [\<lparr>kind = LocalRpc, phase = Uninitialized, target = clientId\<rparr>],
                       rpcClient := Some h\<rparr>
           in case lib_call L (RpcRegister clientId) s2 of
                (Inl e, s3) \<Rightarrow> (Inl e, s3)
              | (Inr u, s3) \<Rightarrow>
                  (case lib_call L (RpcLogin h clientId) s3 of
                     (Inl e, s4) \<Rightarrow> (Inl e, s4)
                   | (Inr u, s4) \<Rightarrow> (Inr (), set_phase h Connecting s4))))"

definition initRemoteWs :: "lib \<Rightarrow> jsval \<Rightarrow> state \<Rightarrow> (exn + unit) \<times> state" where
  "initRemoteWs L agentUrl s =
     (case lib_call L (WsNew agentUrl) s of
        (Inl e, s1) \<Rightarrow> (Inl e, s1)
      | (Inr u, s1) \<Rightarrow>
          (Inr (), s1\<lparr>heap := heap s1 @ [\<lparr>kind = RemoteWs, phase = Connecting, target = agentUrl\<rparr>],
                      wsClient := Some (length (heap s1))\<rparr>))"

text \<open>
  \<open>sendActivity\<close> (lines 68-82). The local branch asks only whether \<open>rpcClient\<close> is
  set; the remote branch asks whether \<open>wsClient\<close> is set and its \<open>readyState\<close> is
  \<open>OPEN\<close>. The function is declared \<open>void\<close>: its result is a normal return or an
  exception.
\<close>

definition sendActivity :: "lib \<Rightarrow> jsval \<Rightarrow> state \<Rightarrow> (exn + unit) \<times> state" where
  "sendActivity L activity s =
     (case getProp (config s) ''mode'' of
        Inl e \<Rightarrow> (Inl e, s)
      | Inr m \<Rightarrow>
          if m = JStr ''local'' then
            (case rpcClient s of
               None \<Rightarrow> (Inr (), emit (ConsoleError ''RPC client not initialized'') s)
             | Some h \<Rightarrow> lib_call L (RpcSetActivity h activity) s)
          else
            (case wsClient s of
               None \<Rightarrow> (Inr (), emit (ConsoleError ''WebSocket client not connected'') s)
             | Some h \<Rightarrow>
                 if phase_of s h \<noteq> Some Ready
                 then (Inr (), emit (ConsoleError ''WebSocket client not connected'') s)
                 else lib_call L (WsSend h (stringify L activity)) s))"

subsection \<open>Plugin entry points (lines 84-151)\<close>

text \<open>The branch on \<open>config.mode\<close> of lines 90-91 and 105-106.\<close>

definition initTransport :: "lib \<Rightarrow> state \<Rightarrow> (exn + unit) \<times> state" where
  "initTransport L s =
     (case getProp (config s) ''mode'' of
        Inl e \<Rightarrow> (Inl e, s)
      | Inr m \<Rightarrow>
          if m = JStr ''local'' then
            (case getProp (config s) ''clientId'' of
               Inl e \<Rightarrow> (Inl e, s)
             | Inr c \<Rightarrow> initLocalRpc L c s)
          else
            (case getProp (config s) ''agentUrl'' of
               Inl e \<Rightarrow> (Inl e, s)
             | Inr a \<Rightarrow> initRemoteWs L a s))"

text \<open>
  \<open>init\<close>: an exception of lines 90-91 leaves the function before any route is
  registered.
\<close>

definition init :: "lib \<Rightarrow> state \<Rightarrow> (exn + unit) \<times> state" where
  "init L s =
     (case initTransport L (emit (ConsoleLog ''Plugin init, loaded config:'') s) of
        (Inl e, s1) \<Rightarrow> (Inl e, s1)
      | (Inr u, s1) \<Rightarrow> (Inr (), emit (ConsoleLog ''Plugin loaded!'') (s1\<lparr>routes := True\<rparr>)))"

datatype response =
    Status nat
  | StatusText nat string
  | Json jsval
  | Unanswered exn
  | NotRouted

text \<open>Statements in sequence: an exception of the first skips the second.\<close>

definition seq ::
  "(state \<Rightarrow> (exn + unit) \<times> state) \<Rightarrow> (state \<Rightarrow> (exn + unit) \<times> state) \<Rightarrow>
   state \<Rightarrow> (exn + unit) \<times> state" where
  "seq f g s = (case f s of (Inl e, s1) \<Rightarrow> (Inl e, s1) | (Inr u, s1) \<Rightarrow> g s1)"

text \<open>
  \<open>if (rpcClient) rpcClient.destroy()\<close> and \<open>if (wsClient) wsClient.close()\<close>
  (lines 149-150, and the first halves of lines 103-104). Modelled from the spec:
  \<open>destroy\<close> and \<open>close\<close> leave the object \<open>Closed\<close>.
\<close>

definition close_rpc :: "lib \<Rightarrow> state \<Rightarrow> (exn + unit) \<times> state" where
  "close_rpc L s =
     (case rpcClient s of
        None \<Rightarrow> (Inr (), s)
      | Some h \<Rightarrow>
          (case lib_call L (RpcDestroy h) s of
             (Inl e, s1) \<Rightarrow> (Inl e, s1)
           | (Inr u, s1) \<Rightarrow> (Inr (), set_phase h Closed s1)))"

definition close_ws :: "lib \<Rightarrow> state \<Rightarrow> (exn + unit) \<times> state" where
  "close_ws L s =
     (case wsClient s of
        None \<Rightarrow> (Inr (), s)
      | Some h \<Rightarrow>
          (case lib_call L (WsClose h) s of
             (Inl e, s1) \<Rightarrow> (Inl e, s1)
           | (Inr u, s1) \<Rightarrow> (Inr (), set_phase h Closed s1)))"

text \<open>
  Lines 103-104: the reference is set to \<open>null\<close> after the close returned. (When
  the reference was \<open>null\<close> already the assignment is skipped in the source and
  changes nothing here.)
\<close>

definition release_rpc :: "lib \<Rightarrow> state \<Rightarrow> (exn + unit) \<times> state" where
  "release_rpc L = seq (close_rpc L) (\<lambda>s. (Inr (), s\<lparr>rpcClient := None\<rparr>))"

definition release_ws :: "lib \<Rightarrow> state \<Rightarrow> (exn + unit) \<times> state" where
  "release_ws L = seq (close_ws L) (\<lambda>s. (Inr (), s\<lparr>wsClient := None\<rparr>))"

text \<open>
  The body of the \<open>try\<close> block of the /settings handler (lines 99-106): the
  destructuring of the body, the assignment to \<open>config\<close>, \<open>saveConfig\<close>, the two
  releases and the new transport.
\<close>

definition new_config :: "jsval \<Rightarrow> exn + jsval" where
  "new_config body =
     (case getProp body ''clientId'' of
        Inl e \<Rightarrow> Inl e
      | Inr clientId \<Rightarrow>
        (case getProp body ''mode'' of
           Inl e \<Rightarrow> Inl e
         | Inr mode \<Rightarrow>
           (case getProp body ''agentUrl'' of
              Inl e \<Rightarrow> Inl e
            | Inr agentUrl \<Rightarrow>
                Inr (JObj [(''clientId'', clientId), (''mode'', mode), (''agentUrl'', agentUrl)]))))"

definition settings_try :: "lib \<Rightarrow> jsval \<Rightarrow> state \<Rightarrow> (exn + unit) \<times> state" where
  "settings_try L body s =
     (case new_config body of
        Inl e \<Rightarrow> (Inl e, s)
      | Inr c \<Rightarrow>
          seq (release_rpc L) (seq (release_ws L) (initTransport L))
            (saveConfig L c (s\<lparr>config := c\<rparr>)))"

definition settings_handler :: "lib \<Rightarrow> jsval \<Rightarrow> state \<Rightarrow> response \<times> state" where
  "settings_handler L body s =
     (case settings_try L body s of
        (Inr u, s1) \<Rightarrow> (Status 204, s1)
      | (Inl e, s1) \<Rightarrow>
          (StatusText 500 ''Internal Server Error'', emit (ConsoleError ''Settings update failed'') s1))"

text \<open>The object literal of lines 118-123.\<close>

definition activity_of :: "jsval \<Rightarrow> exn + jsval" where
  "activity_of body =
     (case getProp body ''details'' of
        Inl e \<Rightarrow> Inl e
      | Inr d \<Rightarrow>
        (case getProp body ''state'' of
           Inl e \<Rightarrow> Inl e
         | Inr st \<Rightarrow>
           (case getProp body ''largeImageKey'' of
              Inl e \<Rightarrow> Inl e
            | Inr k \<Rightarrow>
              (case getProp body ''startTimestamp'' of
                 Inl e \<Rightarrow> Inl e
               | Inr t \<Rightarrow>
                   Inr (JObj [(''details'', d), (''state'', st), (''largeImageKey'', k),
                              (''startTimestamp'', t)])))))"

definition update_handler :: "lib \<Rightarrow> jsval \<Rightarrow> state \<Rightarrow> response \<times> state" where
  "update_handler L body s =
     (let s1 = emit (ConsoleLog ''/update payload:'') s
      in case (case activity_of body of
                 Inl e \<Rightarrow> (Inl e, s1)
               | Inr a \<Rightarrow> sendActivity L a s1) of
           (Inr u, s2) \<Rightarrow> (Status 204, s2)
         | (Inl e, s2) \<Rightarrow>
             (StatusText 500 ''Internal Server Error'', emit (ConsoleError ''/update error'') s2))"

text \<open>The /test handler has no \<open>try\<close>: an exception leaves the request unanswered.\<close>

definition dummy :: "int \<Rightarrow> jsval" where
  "dummy now =
     JObj [(''details'', JStr ''Test Presence''), (''state'', JStr ''Testing RPC''),
           (''largeImageKey'', JStr ''test_image''), (''startTimestamp'', JNum now)]"

definition test_handler :: "lib \<Rightarrow> int \<Rightarrow> state \<Rightarrow> response \<times> state" where
  "test_handler L now s =
     (case sendActivity L (dummy now) (emit (ConsoleLog ''/test invoked'') s) of
        (Inl e, s1) \<Rightarrow> (Unanswered e, s1)
      | (Inr u, s1) \<Rightarrow> (Json (JObj [(''success'', JBool True), (''sent'', dummy now)]), s1))"

text \<open>\<open>exit\<close> (lines 147-151) closes what is referenced and keeps the references.\<close>

definition exit :: "lib \<Rightarrow> state \<Rightarrow> (exn + unit) \<times> state" where
  "exit L s = seq (close_rpc L) (close_ws L) (emit (ConsoleLog ''Plugin exited'') s)"

subsection \<open>Events of the libraries\<close>

text \<open>
  The listeners of lines 56-59 and 64-65. discord-rpc clients listen to \<open>ready\<close>,
  \<open>error\<close> and \<open>close\<close>, and the promise of \<open>login\<close> has a \<open>catch\<close>;
  WebSockets listen to \<open>open\<close> and \<open>error\<close> only. Every listener prints a line
  and does nothing else.
\<close>

datatype ev = EvReady | EvError | EvClose | EvLoginRejected

fun rpc_listener :: "ev \<Rightarrow> state \<Rightarrow> state" where
  "rpc_listener EvReady s = emit (ConsoleLog ''Local RPC ready'') s"
| "rpc_listener EvError s = emit (ConsoleError ''Local RPC error'') s"
| "rpc_listener EvClose s = emit (ConsoleWarn ''Local RPC transport closed'') s"
| "rpc_listener EvLoginRejected s = emit (ConsoleError ''Local RPC login failed'') s"

fun ws_listener :: "ev \<Rightarrow> state \<Rightarrow> state" where
  "ws_listener EvReady s = emit (ConsoleLog ''Connected to agent at'') s"
| "ws_listener EvError s = emit (ConsoleError ''WS error'') s"
| "ws_listener EvClose s = s"
| "ws_listener EvLoginRejected s = s"

text \<open>
  Modelled from the spec: the phase a library leaves an object in when it emits an
  event (section 3: \<open>Connecting \<rightarrow> Ready\<close> on success, \<open>Closed\<close> on an error or a
  close). An object that never began to connect emits nothing.
\<close>

fun phase_after :: "ev \<Rightarrow> phase \<Rightarrow> phase" where
  "phase_after EvReady p = (if p = Connecting then Ready else p)"
| "phase_after e p = Closed"

definition fire :: "nat \<Rightarrow> ev \<Rightarrow> state \<Rightarrow> state" where
  "fire h e s =
     (if h < length (heap s) \<and> phase (heap s ! h) \<noteq> Uninitialized then
        (let s1 = set_phase h (phase_after e (phase (heap s ! h))) s
         in case kind (heap s ! h) of
              LocalRpc \<Rightarrow> rpc_listener e s1
            | RemoteWs \<Rightarrow> ws_listener e s1)
      else s)"

subsection \<open>Runs of the plugin\<close>

text \<open>
  The host loads the module, calls \<open>init\<close> once, and from then on requests, library
  events and \<open>exit\<close> arrive in any order. A request reaches a handler only if
  \<open>init\<close> registered the routes.
\<close>

datatype request = Probe | Settings jsval | Update jsval | Test int

definition handle_request :: "lib \<Rightarrow> request \<Rightarrow> state \<Rightarrow> response \<times> state" where
  "handle_request L r s =
     (if \<not> routes s then (NotRouted, s)
      else case r of
             Probe \<Rightarrow> (Status 204, s)
           | Settings body \<Rightarrow> settings_handler L body s
           | Update body \<Rightarrow> update_handler L body s
           | Test now \<Rightarrow> test_handler L now s)"

datatype op = Request request | Exit | Fire nat ev

fun step :: "lib \<Rightarrow> state \<Rightarrow> op \<Rightarrow> state" where
  "step L s (Request r) = snd (handle_request L r s)"
| "step L s Exit = snd (exit L s)"
| "step L s (Fire h e) = fire h e s"

definition boot :: "lib \<Rightarrow> state" where
  "boot L = snd (init L (initial L))"

definition run :: "lib \<Rightarrow> op list \<Rightarrow> state" where
  "run L ops = foldl (step L) (boot L) ops"

subsection \<open>Observations\<close>

text \<open>A handle is live from its construction until it is closed.\<close>

definition live :: "handle \<Rightarrow> bool" where
  "live x = (phase x \<noteq> Closed)"

definition live_handles :: "state \<Rightarrow> nat list" where
  "live_handles s = filter (\<lambda>h. live (heap s ! h)) [0..<length (heap s)]"

text \<open>The three module variables: what the spec calls the manager's state.\<close>

definition manager :: "state \<Rightarrow> jsval \<times> nat option \<times> nat option" where
  "manager s = (config s, rpcClient s, wsClient s)"

text \<open>A library with no file, whose calls never raise.\<close>

definition quiet :: lib where
  "quiet = \<lparr>throws = (\<lambda>c objs. False), stringify = (\<lambda>v. ''{}''), readFile = None,
            jsonParse = (\<lambda>t. None)\<rparr>"

text \<open>A library whose configuration file holds a text that parses to \<open>v\<close>.\<close>

definition with_file :: "jsval \<Rightarrow> lib" where
  "with_file v = quiet\<lparr>readFile := Some ''config'', jsonParse := (\<lambda>t. if t = ''config'' then Some v else None)\<rparr>"

subsection \<open>The invariant of the three variables\<close>

text \<open>
  At most one of the two variables is set, what is set names an object of the heap,
  and every object that is not closed is named by one of them.
\<close>

definition referenced :: "state \<Rightarrow> nat \<Rightarrow> bool" where
  "referenced s h = (rpcClient s = Some h \<or> wsClient s = Some h)"

definition consistent :: "state \<Rightarrow> bool" where
  "consistent s =
     ((rpcClient s = None \<or> wsClient s = None)
      \<and> (case rpcClient s of None \<Rightarrow> True | Some h \<Rightarrow> h < length (heap s))
      \<and> (case wsClient s of None \<Rightarrow> True | Some h \<Rightarrow> h < length (heap s))
      \<and> (\<forall>h \<in> set (live_handles s). referenced s h))"

text \<open>Nothing is referenced and nothing is live: the state in which a transport is built.\<close>

definition idle :: "state \<Rightarrow> bool" where
  "idle s = (rpcClient s = None \<and> wsClient s = None \<and> live_handles s = [])"

text \<open>
  What a step may do to the heap: leave its length alone, or allocate one object, which
  is then live and the only one referenced.
\<close>

definition grown :: "state \<Rightarrow> state \<Rightarrow> bool" where
  "grown s s' =
     (length (heap s') = length (heap s)
      \<or> length (heap s') = Suc (length (heap s))
        \<and> set_option (rpcClient s') \<union> set_option (wsClient s') = {length (heap s)}
        \<and> phase (heap s' ! length (heap s)) \<noteq> Closed)"

text \<open>Request bodies used as concrete inputs.\<close>

definition to_remote :: jsval where
  "to_remote = JObj [(''mode'', JStr ''remote''), (''agentUrl'', JStr ''ws://agent'')]"

subsection \<open>Observations on sends\<close>

text \<open>The two calls that hand a payload to a transport.\<close>

fun is_send :: "effect \<Rightarrow> bool" where
  "is_send (Called (RpcSetActivity h a)) = True"
| "is_send (Called (WsSend h t)) = True"
| "is_send e = False"

text \<open>Reading a property where a missing one reads as \<open>undefined\<close>.\<close>

definition field_of :: "jsval \<Rightarrow> string \<Rightarrow> jsval" where
  "field_of v k = (case getProp v k of Inl e \<Rightarrow> Undefined | Inr x \<Rightarrow> x)"

text \<open>Concrete inputs: a payload, and states reached with the quiet library.\<close>

definition payload :: jsval where
  "payload = JObj [(''details'', JStr ''D''), (''state'', JStr ''S''), (''largeImageKey'', JStr ''K''),
                   (''startTimestamp'', JNum 1700000000000)]"

definition local_connecting :: state where
  "local_connecting = run quiet []"

definition local_ready :: state where
  "local_ready = run quiet [Fire 0 EvReady]"

definition remote_connecting :: state where
  "remote_connecting = run quiet [Request (Settings to_remote)]"

definition remote_open :: state where
  "remote_open = run quiet [Request (Settings to_remote), Fire 1 EvReady]"

text \<open>A write on a socket.\<close>

fun is_write :: "effect \<Rightarrow> bool" where
  "is_write (Called (WsSend h t)) = True"
| "is_write e = False"

text \<open>What a step added to the trace.\<close>

definition added :: "state \<Rightarrow> state \<Rightarrow> effect list" where
  "added s s' = drop (length (trace s)) (trace s')"


subsection \<open>Observations on the life of handles\<close>

text \<open>The handle the module holds, and the call that closes it.\<close>

definition held :: "state \<Rightarrow> nat option" where
  "held s = (case rpcClient s of Some h \<Rightarrow> Some h | None \<Rightarrow> wsClient s)"

definition close_call :: "state \<Rightarrow> nat \<Rightarrow> call" where
  "close_call s h = (if rpcClient s = Some h then RpcDestroy h else WsClose h)"

text \<open>Calls that close handle \<open>h\<close>, and calls that construct a handle.\<close>

fun closes :: "nat \<Rightarrow> effect \<Rightarrow> bool" where
  "closes h (Called (RpcDestroy k)) = (k = h)"
| "closes h (Called (WsClose k)) = (k = h)"
| "closes h e = False"

fun creates :: "effect \<Rightarrow> bool" where
  "creates (Called RpcNew) = True"
| "creates (Called (WsNew u)) = True"
| "creates e = False"

definition lifecycle :: "nat \<Rightarrow> effect list \<Rightarrow> effect list" where
  "lifecycle h xs = filter (\<lambda>e. closes h e \<or> creates e) xs"

fun is_settings :: "op \<Rightarrow> bool" where
  "is_settings (Request (Settings b)) = True"
| "is_settings x = False"

definition to_local :: jsval where
  "to_local = JObj [(''mode'', JStr ''local''), (''clientId'', JStr ''abc'')]"


text \<open>Library calls, as opposed to console lines.\<close>

fun is_call :: "effect \<Rightarrow> bool" where
  "is_call (Called c) = True"
| "is_call e = False"

text \<open>Library events as steps of a run.\<close>

definition fires :: "(nat \<times> ev) list \<Rightarrow> op list" where
  "fires evs = map (\<lambda>(h, e). Fire h e) evs"

text \<open>
  A library whose WebSocket constructor raises synchronously when it is given no URL or
  an empty one; every other call returns. And a request body that selects the remote
  mode and gives no agent URL.
\<close>

definition refusing :: lib where
  "refusing =
     quiet\<lparr>throws :=
       (\<lambda>c objs. case c of WsNew u \<Rightarrow> u = Undefined \<or> u = JStr [] | _ \<Rightarrow> False)\<rparr>"

definition remote_no_url :: jsval where
  "remote_no_url = JObj [(''mode'', JStr ''remote'')]"

section \<open>Properties\<close>

lemma emit_simps:
  "config (emit e s) = config s" "rpcClient (emit e s) = rpcClient s"
  "wsClient (emit e s) = wsClient s" "heap (emit e s) = heap s"
  "routes (emit e s) = routes s" "trace (emit e s) = trace s @ [e]"
  by (simp_all add: emit_def)

subsection \<open>Basic facts\<close>

lemma lib_call_simps:
  "snd (lib_call L c s) = emit (Called c) s"
  "fst (lib_call L c s) = (if throws L c (heap s) then Inl (Raised c) else Inr ())"
  by (simp_all add: lib_call_def)

lemma lib_call_cases:
  "lib_call L c s = (r, s') \<Longrightarrow> s' = emit (Called c) s \<and> r = (if throws L c (heap s) then Inl (Raised c) else Inr ())"
  by (auto simp: lib_call_def)

lemma set_phase_simps:
  "config (set_phase h p s) = config s" "rpcClient (set_phase h p s) = rpcClient s"
  "wsClient (set_phase h p s) = wsClient s" "routes (set_phase h p s) = routes s"
  "trace (set_phase h p s) = trace s" "length (heap (set_phase h p s)) = length (heap s)"
  by (simp_all add: set_phase_def)

lemma set_phase_phase:
  "i < length (heap s) \<Longrightarrow>
     phase (heap (set_phase h p s) ! i) = (if i = h then p else phase (heap s ! i))"
  by (simp add: set_phase_def nth_list_update)

lemma live_handles_iff:
  "h \<in> set (live_handles s) \<longleftrightarrow> h < length (heap s) \<and> phase (heap s ! h) \<noteq> Closed"
  by (auto simp: live_handles_def live_def)


lemma consistent_iff:
  "consistent s \<longleftrightarrow>
     (rpcClient s = None \<or> wsClient s = None)
     \<and> (\<forall>h. rpcClient s = Some h \<longrightarrow> h < length (heap s))
     \<and> (\<forall>h. wsClient s = Some h \<longrightarrow> h < length (heap s))
     \<and> (\<forall>h < length (heap s). phase (heap s ! h) \<noteq> Closed \<longrightarrow> referenced s h)"
  by (auto simp: consistent_def live_handles_iff split: option.splits)

lemma idle_iff:
  "idle s \<longleftrightarrow> rpcClient s = None \<and> wsClient s = None
      \<and> (\<forall>h < length (heap s). phase (heap s ! h) = Closed)"
  by (auto simp: idle_def live_handles_def live_def filter_empty_conv)

lemma consistent_emit: "consistent (emit e s) = consistent s"
  by (simp add: consistent_iff emit_simps referenced_def)

lemma idle_emit: "idle (emit e s) = idle s"
  by (simp add: idle_iff emit_simps)

lemma consistent_lib_call: "consistent (snd (lib_call L c s)) = consistent s"
  by (simp add: lib_call_simps consistent_emit)

lemma consistent_close: "consistent s \<Longrightarrow> consistent (set_phase h Closed s)"
  by (auto simp: consistent_iff set_phase_simps set_phase_phase referenced_def)

lemma idle_initial: "idle (initial L)"
  by (simp add: idle_iff initial_def)

lemma idle_consistent: "idle s \<Longrightarrow> consistent s"
  by (auto simp: idle_iff consistent_iff)

lemma consistent_initLocalRpc: "idle s \<Longrightarrow> consistent (snd (initLocalRpc L c s))"
  by (auto simp: initLocalRpc_def lib_call_def Let_def consistent_iff idle_iff emit_simps set_phase_simps
      set_phase_phase referenced_def nth_append split: prod.splits sum.splits if_splits)

lemma consistent_initRemoteWs: "idle s \<Longrightarrow> consistent (snd (initRemoteWs L a s))"
  by (auto simp: initRemoteWs_def lib_call_def Let_def consistent_iff idle_iff emit_simps
      referenced_def nth_append split: prod.splits sum.splits if_splits)

lemma consistent_initTransport: "idle s \<Longrightarrow> consistent (snd (initTransport L s))"
  by (auto simp: initTransport_def consistent_initLocalRpc consistent_initRemoteWs idle_consistent split: sum.splits)

lemma seq_cases:
  "seq f g s = (r, s') \<Longrightarrow>
     (\<exists>e. f s = (Inl e, s') \<and> r = Inl e) \<or> (\<exists>s1. f s = (Inr (), s1) \<and> g s1 = (r, s'))"
  by (auto simp: seq_def split: prod.splits sum.splits)

lemma seq_preserves:
  assumes "P s" and "\<And>s. P s \<Longrightarrow> P (snd (f s))" and "\<And>s. P s \<Longrightarrow> P (snd (g s))"
  shows "P (snd (seq f g s))"
  using assms by (auto simp: seq_def split: prod.splits sum.splits) (metis snd_conv)+

lemma consistent_close_rpc: "consistent s \<Longrightarrow> consistent (snd (close_rpc L s))"
  by (auto simp: close_rpc_def lib_call_def consistent_emit consistent_close
      split: option.splits prod.splits sum.splits)

lemma consistent_close_ws: "consistent s \<Longrightarrow> consistent (snd (close_ws L s))"
  by (auto simp: close_ws_def lib_call_def consistent_emit consistent_close
      split: option.splits prod.splits sum.splits)

lemma consistent_exit: "consistent s \<Longrightarrow> consistent (snd (exit L s))"
  unfolding exit_def
  by (rule seq_preserves) (simp_all add: consistent_emit consistent_close_rpc consistent_close_ws)

lemma consistent_saveConfig: "consistent (saveConfig L c s) = consistent s"
  by (simp add: saveConfig_def lib_call_def consistent_emit)

lemma consistent_config_update: "consistent (s\<lparr>config := c\<rparr>) = consistent s"
  by (simp add: consistent_iff referenced_def)

lemma close_rpc_cases:
  "close_rpc L s = (r, s') \<Longrightarrow>
     (rpcClient s = None \<and> s' = s \<and> r = Inr ())
     \<or> (\<exists>h. rpcClient s = Some h \<and> throws L (RpcDestroy h) (heap s)
            \<and> s' = emit (Called (RpcDestroy h)) s \<and> r = Inl (Raised (RpcDestroy h)))
     \<or> (\<exists>h. rpcClient s = Some h \<and> \<not> throws L (RpcDestroy h) (heap s)
            \<and> s' = set_phase h Closed (emit (Called (RpcDestroy h)) s) \<and> r = Inr ())"
  by (auto simp: close_rpc_def lib_call_def split: option.splits if_splits)

lemma close_ws_cases:
  "close_ws L s = (r, s') \<Longrightarrow>
     (wsClient s = None \<and> s' = s \<and> r = Inr ())
     \<or> (\<exists>h. wsClient s = Some h \<and> throws L (WsClose h) (heap s)
            \<and> s' = emit (Called (WsClose h)) s \<and> r = Inl (Raised (WsClose h)))
     \<or> (\<exists>h. wsClient s = Some h \<and> \<not> throws L (WsClose h) (heap s)
            \<and> s' = set_phase h Closed (emit (Called (WsClose h)) s) \<and> r = Inr ())"
  by (auto simp: close_ws_def lib_call_def split: option.splits if_splits)

lemma release_rpc_cases:
  "release_rpc L s = (r, s') \<Longrightarrow>
     (rpcClient s = None \<and> s' = s\<lparr>rpcClient := None\<rparr> \<and> r = Inr ())
     \<or> (\<exists>h. rpcClient s = Some h \<and> throws L (RpcDestroy h) (heap s)
            \<and> s' = emit (Called (RpcDestroy h)) s \<and> r = Inl (Raised (RpcDestroy h)))
     \<or> (\<exists>h. rpcClient s = Some h \<and> \<not> throws L (RpcDestroy h) (heap s)
            \<and> s' = (set_phase h Closed (emit (Called (RpcDestroy h)) s))\<lparr>rpcClient := None\<rparr>
            \<and> r = Inr ())"
  unfolding release_rpc_def
  by (drule seq_cases, erule disjE; clarsimp; drule close_rpc_cases; auto)

lemma release_ws_cases:
  "release_ws L s = (r, s') \<Longrightarrow>
     (wsClient s = None \<and> s' = s\<lparr>wsClient := None\<rparr> \<and> r = Inr ())
     \<or> (\<exists>h. wsClient s = Some h \<and> throws L (WsClose h) (heap s)
            \<and> s' = emit (Called (WsClose h)) s \<and> r = Inl (Raised (WsClose h)))
     \<or> (\<exists>h. wsClient s = Some h \<and> \<not> throws L (WsClose h) (heap s)
            \<and> s' = (set_phase h Closed (emit (Called (WsClose h)) s))\<lparr>wsClient := None\<rparr>
            \<and> r = Inr ())"
  unfolding release_ws_def
  by (drule seq_cases, erule disjE; clarsimp; drule close_ws_cases; auto)

text \<open>After a release that returned, nothing is referenced by that variable.\<close>

lemma unset_rpc_same: "rpcClient s = None \<Longrightarrow> s\<lparr>rpcClient := None\<rparr> = s"
  by (cases s) simp

lemma unset_ws_same: "wsClient s = None \<Longrightarrow> s\<lparr>wsClient := None\<rparr> = s"
  by (cases s) simp

lemma closed_release_rpc:
  assumes "consistent s" and "rpcClient s = Some h"
  shows "idle ((set_phase h Closed s)\<lparr>rpcClient := None\<rparr>)"
proof -
  have w: "wsClient s = None" and hl: "h < length (heap s)"
    and r: "\<And>i. i < length (heap s) \<Longrightarrow> phase (heap s ! i) \<noteq> Closed \<Longrightarrow> i = h"
    using assms by (auto simp: consistent_iff referenced_def)
  have "phase (heap (set_phase h Closed s) ! i) = Closed" if "i < length (heap s)" for i
    using that r [of i] by (auto simp: set_phase_phase)
  then show ?thesis using w by (simp add: idle_iff set_phase_simps)
qed

lemma closed_release_ws:
  assumes "consistent s" and "wsClient s = Some h"
  shows "idle ((set_phase h Closed s)\<lparr>wsClient := None\<rparr>)"
proof -
  have w: "rpcClient s = None" and hl: "h < length (heap s)"
    and r: "\<And>i. i < length (heap s) \<Longrightarrow> phase (heap s ! i) \<noteq> Closed \<Longrightarrow> i = h"
    using assms by (auto simp: consistent_iff referenced_def)
  have "phase (heap (set_phase h Closed s) ! i) = Closed" if "i < length (heap s)" for i
    using that r [of i] by (auto simp: set_phase_phase)
  then show ?thesis using w by (simp add: idle_iff set_phase_simps)
qed

lemma unset_idle:
  assumes "consistent s" and "rpcClient s = None" and "wsClient s = None"
  shows "idle s"
  using assms by (simp add: consistent_iff idle_iff referenced_def)

lemma release_rpc_consistent:
  assumes "release_rpc L s = (r, s')" and "consistent s"
  shows "consistent s' \<and> (r = Inr () \<longrightarrow> rpcClient s' = None \<and> (wsClient s' = None \<longrightarrow> idle s'))"
  using release_rpc_cases [OF assms(1)]
proof (elim disjE exE conjE)
  assume a: "rpcClient s = None" "s' = s\<lparr>rpcClient := None\<rparr>" "r = Inr ()"
  then have e: "s' = s" by (simp add: unset_rpc_same)
  show ?thesis unfolding e using a(1,3) assms(2) unset_idle [of s] by simp
next
  fix h assume a: "rpcClient s = Some h" "s' = emit (Called (RpcDestroy h)) s" "r = Inl (Raised (RpcDestroy h))"
  then show ?thesis using assms(2) by (simp add: consistent_emit)
next
  fix h assume a: "rpcClient s = Some h"
    "s' = (set_phase h Closed (emit (Called (RpcDestroy h)) s))\<lparr>rpcClient := None\<rparr>" "r = Inr ()"
  have "consistent (emit (Called (RpcDestroy h)) s)" using assms(2) by (simp add: consistent_emit)
  moreover have "rpcClient (emit (Called (RpcDestroy h)) s) = Some h" using a by (simp add: emit_simps)
  ultimately have "idle s'" unfolding a(2) by (rule closed_release_rpc)
  then show ?thesis by (simp add: idle_consistent) (simp add: idle_iff)
qed

lemma release_ws_consistent:
  assumes "release_ws L s = (r, s')" and "consistent s" and "rpcClient s = None"
  shows "consistent s' \<and> (r = Inr () \<longrightarrow> idle s')"
  using release_ws_cases [OF assms(1)]
proof (elim disjE exE conjE)
  assume a: "wsClient s = None" "s' = s\<lparr>wsClient := None\<rparr>" "r = Inr ()"
  then have e: "s' = s" by (simp add: unset_ws_same)
  show ?thesis unfolding e using a(1,3) assms(2,3) unset_idle [of s] by simp
next
  fix h assume a: "wsClient s = Some h" "s' = emit (Called (WsClose h)) s" "r = Inl (Raised (WsClose h))"
  then show ?thesis using assms(2) by (simp add: consistent_emit)
next
  fix h assume a: "wsClient s = Some h"
    "s' = (set_phase h Closed (emit (Called (WsClose h)) s))\<lparr>wsClient := None\<rparr>" "r = Inr ()"
  have "consistent (emit (Called (WsClose h)) s)" using assms(2) by (simp add: consistent_emit)
  moreover have "wsClient (emit (Called (WsClose h)) s) = Some h" using a by (simp add: emit_simps)
  ultimately have "idle s'" unfolding a(2) by (rule closed_release_ws)
  then show ?thesis by (simp add: idle_consistent)
qed

lemma consistent_settings_try: "consistent s \<Longrightarrow> consistent (snd (settings_try L body s))"
proof -
  assume c: "consistent s"
  show ?thesis
  proof (cases "new_config body")
    case (Inl e)
    then show ?thesis using c by (simp add: settings_try_def)
  next
    case (Inr cfg)
    define s0 where "s0 = saveConfig L cfg (s\<lparr>config := cfg\<rparr>)"
    have c0: "consistent s0"
      using c by (simp add: s0_def consistent_saveConfig consistent_config_update)
    obtain r1 s1 where r1: "release_rpc L s0 = (r1, s1)" by (cases "release_rpc L s0")
    note p1 = release_rpc_consistent [OF r1 c0]
    show ?thesis
    proof (cases r1)
      case (Inl e)
      then show ?thesis using Inr r1 p1 by (simp add: settings_try_def seq_def s0_def)
    next
      case (Inr u)
      obtain r2 s2 where r2: "release_ws L s1 = (r2, s2)" by (cases "release_ws L s1")
      have n1: "rpcClient s1 = None" using p1 Inr by simp
      have c1: "consistent s1" using p1 by simp
      note p2 = release_ws_consistent [OF r2 c1 n1]
      show ?thesis
      proof (cases r2)
        case (Inl e)
        then show ?thesis
          using \<open>new_config body = Inr cfg\<close> Inr r1 r2 p1 p2
          by (simp add: settings_try_def seq_def s0_def)
      next
        case (Inr u2)
        then have "idle s2" using p1 p2 by simp
        then show ?thesis
          using \<open>new_config body = Inr cfg\<close> \<open>r1 = Inr u\<close> Inr r1 r2
          by (simp add: settings_try_def seq_def s0_def consistent_initTransport)
      qed
    qed
  qed
qed

lemma consistent_settings_handler:
  "consistent s \<Longrightarrow> consistent (snd (settings_handler L body s))"
  using consistent_settings_try [of s L body]
  by (auto simp: settings_handler_def consistent_emit split: prod.splits sum.splits)

lemma sendActivity_state:
  "snd (sendActivity L a s) = s \<or> (\<exists>e. snd (sendActivity L a s) = emit e s)"
  by (auto simp: sendActivity_def lib_call_def split: sum.splits option.splits)

lemma consistent_sendActivity: "consistent (snd (sendActivity L a s)) = consistent s"
  using sendActivity_state [of L a s] by (auto simp: consistent_emit)

lemma consistent_update_handler: "consistent s \<Longrightarrow> consistent (snd (update_handler L body s))"
proof -
  assume c: "consistent s"
  define s1 where "s1 = emit (ConsoleLog ''/update payload:'') s"
  have c1: "consistent s1" using c by (simp add: s1_def consistent_emit)
  show ?thesis
  proof (cases "activity_of body")
    case (Inl e)
    then show ?thesis using c1 by (simp add: update_handler_def s1_def consistent_emit)
  next
    case (Inr a)
    have "consistent (snd (sendActivity L a s1))" using c1 by (simp add: consistent_sendActivity)
    then show ?thesis using Inr
      by (cases "sendActivity L a s1")
         (auto simp: update_handler_def s1_def consistent_emit split: sum.splits)
  qed
qed

lemma consistent_test_handler: "consistent s \<Longrightarrow> consistent (snd (test_handler L now s))"
proof -
  assume c: "consistent s"
  define s1 where "s1 = emit (ConsoleLog ''/test invoked'') s"
  have "consistent (snd (sendActivity L (dummy now) s1))"
    using c by (simp add: consistent_sendActivity s1_def consistent_emit)
  then show ?thesis
    by (cases "sendActivity L (dummy now) s1")
       (auto simp: test_handler_def s1_def split: sum.splits)
qed

lemma consistent_fire: "consistent s \<Longrightarrow> consistent (fire h e s)"
  by (cases e; cases "kind (heap s ! h)")
     (auto simp: fire_def Let_def consistent_iff emit_simps set_phase_simps set_phase_phase
        referenced_def)

lemma consistent_step: "consistent s \<Longrightarrow> consistent (step L s x)"
proof (cases x)
  case (Request r)
  assume "consistent s"
  then show ?thesis using Request
    by (cases r)
       (simp_all add: handle_request_def consistent_settings_handler consistent_update_handler
          consistent_test_handler)
next
  case Exit
  assume "consistent s" then show ?thesis using Exit by (simp add: consistent_exit)
next
  case (Fire h e)
  assume "consistent s" then show ?thesis using Fire by (simp add: consistent_fire)
qed

lemma consistent_foldl: "consistent s \<Longrightarrow> consistent (foldl (step L) s xs)"
  by (induction xs arbitrary: s) (simp_all add: consistent_step)

lemma live_handles_routes: "live_handles (s\<lparr>routes := b\<rparr>) = live_handles s"
  by (simp add: live_handles_def)

lemma consistent_routes_update: "consistent (s\<lparr>routes := b\<rparr>) = consistent s"
  by (simp add: consistent_def referenced_def live_handles_routes split: option.splits)

lemma consistent_init: "idle s \<Longrightarrow> consistent (snd (init L s))"
proof -
  assume "idle s"
  then have "idle (emit (ConsoleLog ''Plugin init, loaded config:'') s)"
    by (simp add: idle_emit)
  then have c: "consistent (snd (initTransport L (emit (ConsoleLog ''Plugin init, loaded config:'') s)))"
    by (rule consistent_initTransport)
  obtain r s1 where i: "initTransport L (emit (ConsoleLog ''Plugin init, loaded config:'') s) = (r, s1)"
    by (cases "initTransport L (emit (ConsoleLog ''Plugin init, loaded config:'') s)")
  show ?thesis
    using c i by (cases r) (simp_all add: init_def consistent_emit consistent_routes_update)
qed

lemma consistent_boot: "consistent (boot L)"
  by (simp add: boot_def consistent_init idle_initial)

lemma consistent_run: "consistent (run L xs)"
  by (simp add: run_def consistent_foldl consistent_boot)

lemma live_handles_le_one: "consistent s \<Longrightarrow> length (live_handles s) \<le> 1"
proof -
  assume c: "consistent s"
  have d: "distinct (live_handles s)" by (simp add: live_handles_def)
  have "\<exists>r. set (live_handles s) \<subseteq> {r}"
    using c by (auto simp: consistent_def referenced_def split: option.splits)
  then obtain r where "set (live_handles s) \<subseteq> {r}" ..
  then have "card (set (live_handles s)) \<le> card {r}" by (intro card_mono) simp_all
  then show ?thesis using d by (simp add: distinct_card)
qed

lemma initLocalRpc_heap:
  "heap (snd (initLocalRpc L c s)) = heap s \<and> rpcClient (snd (initLocalRpc L c s)) = rpcClient s
     \<and> wsClient (snd (initLocalRpc L c s)) = wsClient s
   \<or> length (heap (snd (initLocalRpc L c s))) = Suc (length (heap s))
     \<and> rpcClient (snd (initLocalRpc L c s)) = Some (length (heap s))
     \<and> wsClient (snd (initLocalRpc L c s)) = wsClient s
     \<and> phase (heap (snd (initLocalRpc L c s)) ! length (heap s)) \<noteq> Closed"
  by (auto simp: initLocalRpc_def lib_call_def Let_def emit_simps set_phase_simps set_phase_def
      nth_append split: prod.splits sum.splits if_splits)

lemma initRemoteWs_heap:
  "heap (snd (initRemoteWs L a s)) = heap s \<and> rpcClient (snd (initRemoteWs L a s)) = rpcClient s
     \<and> wsClient (snd (initRemoteWs L a s)) = wsClient s
   \<or> length (heap (snd (initRemoteWs L a s))) = Suc (length (heap s))
     \<and> wsClient (snd (initRemoteWs L a s)) = Some (length (heap s))
     \<and> rpcClient (snd (initRemoteWs L a s)) = rpcClient s
     \<and> phase (heap (snd (initRemoteWs L a s)) ! length (heap s)) \<noteq> Closed"
  by (auto simp: initRemoteWs_def lib_call_def emit_simps nth_append split: prod.splits sum.splits if_splits)

lemma grown_refl: "grown s s"
  by (simp add: grown_def)

lemma initLocalRpc_grown:
  "rpcClient s = None \<Longrightarrow> wsClient s = None \<Longrightarrow> grown s (snd (initLocalRpc L c s))"
  using initLocalRpc_heap [of L c s] by (auto simp: grown_def)

lemma initRemoteWs_grown:
  "rpcClient s = None \<Longrightarrow> wsClient s = None \<Longrightarrow> grown s (snd (initRemoteWs L a s))"
  using initRemoteWs_heap [of L a s] by (auto simp: grown_def)

lemma initTransport_heap:
  "rpcClient s = None \<Longrightarrow> wsClient s = None \<Longrightarrow> grown s (snd (initTransport L s))"
  by (simp add: initTransport_def initLocalRpc_grown initRemoteWs_grown grown_refl split: sum.splits)

lemma release_rpc_heap:
  "release_rpc L s = (r, s') \<Longrightarrow>
     length (heap s') = length (heap s) \<and> wsClient s' = wsClient s \<and> (r = Inr () \<longrightarrow> rpcClient s' = None)"
  by (drule release_rpc_cases) (auto simp: emit_simps set_phase_simps)

lemma release_ws_heap:
  "release_ws L s = (r, s') \<Longrightarrow>
     length (heap s') = length (heap s) \<and> rpcClient s' = rpcClient s \<and> (r = Inr () \<longrightarrow> wsClient s' = None)"
  by (drule release_ws_cases) (auto simp: emit_simps set_phase_simps)

lemma saveConfig_simps:
  "config (saveConfig L c s) = config s" "rpcClient (saveConfig L c s) = rpcClient s"
  "wsClient (saveConfig L c s) = wsClient s" "heap (saveConfig L c s) = heap s"
  "routes (saveConfig L c s) = routes s"
  by (simp_all add: saveConfig_def lib_call_def emit_simps)

lemma settings_try_heap: "grown s (snd (settings_try L body s))"
proof (cases "new_config body")
  case (Inl e)
  then show ?thesis by (simp add: settings_try_def grown_def)
next
  case (Inr cfg)
  define s0 where "s0 = saveConfig L cfg (s\<lparr>config := cfg\<rparr>)"
  have l0: "length (heap s0) = length (heap s)" by (simp add: s0_def saveConfig_simps)
  obtain r1 s1 where r1: "release_rpc L s0 = (r1, s1)" by (cases "release_rpc L s0")
  note p1 = release_rpc_heap [OF r1]
  show ?thesis
  proof (cases r1)
    case (Inl e)
    then show ?thesis using Inr r1 p1 l0 by (simp add: settings_try_def seq_def s0_def grown_def)
  next
    case (Inr u)
    obtain r2 s2 where r2: "release_ws L s1 = (r2, s2)" by (cases "release_ws L s1")
    note p2 = release_ws_heap [OF r2]
    show ?thesis
    proof (cases r2)
      case (Inl e)
      then show ?thesis
        using \<open>new_config body = Inr cfg\<close> Inr r1 r2 p1 p2 l0
        by (simp add: settings_try_def seq_def s0_def grown_def)
    next
      case (Inr u2)
      have "rpcClient s2 = None" "wsClient s2 = None" using p1 p2 Inr \<open>r1 = Inr u\<close> by simp_all
      then have "grown s2 (snd (initTransport L s2))" by (rule initTransport_heap)
      moreover have "length (heap s2) = length (heap s)" using p1 p2 l0 by simp
      ultimately show ?thesis
        using \<open>new_config body = Inr cfg\<close> \<open>r1 = Inr u\<close> Inr r1 r2
        by (simp add: settings_try_def seq_def s0_def grown_def)
    qed
  qed
qed

lemma grown_emit: "grown s (emit e s') = grown s s'"
  by (simp add: grown_def emit_simps)

lemma grown_same_heap:
  "heap s' = heap s \<Longrightarrow> grown s s'"
  by (simp add: grown_def)

lemma grown_same_length:
  "length (heap s') = length (heap s) \<Longrightarrow> grown s s'"
  by (simp add: grown_def)

lemma settings_handler_heap: "grown s (snd (settings_handler L body s))"
proof -
  obtain r s1 where e: "settings_try L body s = (r, s1)" by (cases "settings_try L body s")
  have g: "grown s s1" using settings_try_heap [of s L body] e by simp
  show ?thesis using e g by (cases r) (simp_all add: settings_handler_def grown_emit)
qed

lemma sendActivity_heap: "heap (snd (sendActivity L a s)) = heap s"
  using sendActivity_state [of L a s] by (auto simp: emit_simps)

lemma update_handler_heap: "heap (snd (update_handler L body s)) = heap s"
proof (cases "activity_of body")
  case (Inl e)
  then show ?thesis by (simp add: update_handler_def emit_simps)
next
  case (Inr a)
  obtain r s1 where e: "sendActivity L a (emit (ConsoleLog ''/update payload:'') s) = (r, s1)"
    by (cases "sendActivity L a (emit (ConsoleLog ''/update payload:'') s)")
  have "heap s1 = heap s"
    using sendActivity_heap [of L a "emit (ConsoleLog ''/update payload:'') s"] e
    by (simp add: emit_simps)
  then show ?thesis using Inr e by (cases r) (simp_all add: update_handler_def emit_simps)
qed

lemma test_handler_heap: "heap (snd (test_handler L now s)) = heap s"
proof -
  obtain r s1 where e: "sendActivity L (dummy now) (emit (ConsoleLog ''/test invoked'') s) = (r, s1)"
    by (cases "sendActivity L (dummy now) (emit (ConsoleLog ''/test invoked'') s)")
  have "heap s1 = heap s"
    using sendActivity_heap [of L "dummy now" "emit (ConsoleLog ''/test invoked'') s"] e
    by (simp add: emit_simps)
  then show ?thesis using e by (cases r) (simp_all add: test_handler_def)
qed

lemma close_rpc_length: "length (heap (snd (close_rpc L s))) = length (heap s)"
proof -
  obtain r s1 where e: "close_rpc L s = (r, s1)" by (cases "close_rpc L s")
  show ?thesis
    using close_rpc_cases [OF e] e
    by (elim disjE exE conjE) (simp_all add: emit_simps set_phase_simps)
qed

lemma close_ws_length: "length (heap (snd (close_ws L s))) = length (heap s)"
proof -
  obtain r s1 where e: "close_ws L s = (r, s1)" by (cases "close_ws L s")
  show ?thesis
    using close_ws_cases [OF e] e
    by (elim disjE exE conjE) (simp_all add: emit_simps set_phase_simps)
qed

lemma exit_length: "length (heap (snd (exit L s))) = length (heap s)"
proof -
  define s0 where "s0 = emit (ConsoleLog ''Plugin exited'') s"
  obtain r s1 where e: "close_rpc L s0 = (r, s1)" by (cases "close_rpc L s0")
  have l1: "length (heap s1) = length (heap s)"
    using close_rpc_length [of L s0] e by (simp add: s0_def emit_simps)
  have l2: "length (heap (snd (close_ws L s1))) = length (heap s)"
    using close_ws_length [of L s1] l1 by simp
  show ?thesis
    using e l1 l2 by (cases r) (simp_all add: exit_def seq_def s0_def)
qed

lemma fire_length: "length (heap (fire h e s)) = length (heap s)"
  by (cases e; cases "kind (heap s ! h)") (simp_all add: fire_def Let_def emit_simps set_phase_simps)

lemma handle_request_heap: "grown s (snd (handle_request L r s))"
proof (cases "routes s")
  case False
  then show ?thesis by (simp add: handle_request_def grown_same_heap)
next
  case True
  then show ?thesis
    by (cases r)
       (simp_all add: handle_request_def grown_same_heap settings_handler_heap
          update_handler_heap test_handler_heap)
qed

lemma step_heap: "grown s (step L s x)"
proof (cases x)
  case (Request r)
  then show ?thesis by (simp add: handle_request_heap)
next
  case Exit
  then show ?thesis by (simp add: grown_same_length exit_length)
next
  case (Fire h e)
  then show ?thesis by (simp add: grown_same_length fire_length)
qed

lemma singleton_list:
  assumes "set xs = {n}" and "distinct xs"
  shows "xs = [n]"
proof (cases xs)
  case Nil
  then show ?thesis using assms by simp
next
  case (Cons x ys)
  have x: "x = n" using Cons assms(1) by auto
  have "y \<in> set ys \<Longrightarrow> False" for y
  proof -
    assume y: "y \<in> set ys"
    then have "y \<in> set xs" using Cons by simp
    then have "y = n" using assms(1) by simp
    then show False using y x Cons assms(2) by simp
  qed
  then have "ys = []" by (cases ys) auto
  then show ?thesis using Cons x by simp
qed

lemma live_handles_new:
  assumes "consistent s'" and "length (heap s') = Suc n"
    and "set_option (rpcClient s') \<union> set_option (wsClient s') = {n}"
    and "phase (heap s' ! n) \<noteq> Closed"
  shows "live_handles s' = [n]"
proof -
  have r: "referenced s' h \<Longrightarrow> h = n" for h
    using assms(3) by (auto simp: referenced_def)
  have "h \<in> set (live_handles s') \<Longrightarrow> h = n" for h
    using assms(1) r by (simp add: consistent_def)
  moreover have "n \<in> set (live_handles s')"
    using assms(2,4) by (simp add: live_handles_iff)
  ultimately have "set (live_handles s') = {n}" by blast
  moreover have "distinct (live_handles s')" by (simp add: live_handles_def)
  ultimately show ?thesis by (rule singleton_list)
qed

subsection \<open>One transport at a time\<close>

text \<open>
  C2. In every state the plugin reaches (module load, \<open>init\<close>, then any requests,
  library events and \<open>exit\<close> calls in any order) \<open>rpcClient\<close> and \<open>wsClient\<close>
  are not both set and at most one library object is live. Whenever a step creates an
  object, the object it creates is afterwards the only live one and the only one
  referenced: every older object has been closed and its reference dropped.
\<close>

theorem one_transport_at_a_time:
  "(rpcClient (run L ops) = None \<or> wsClient (run L ops) = None)
   \<and> length (live_handles (run L ops)) \<le> 1
   \<and> (length (heap (run L ops)) < length (heap (step L (run L ops) x)) \<longrightarrow>
        live_handles (step L (run L ops) x) = [length (heap (run L ops))]
        \<and> set_option (rpcClient (step L (run L ops) x)) \<union> set_option (wsClient (step L (run L ops) x))
            = {length (heap (run L ops))})"
proof -
  have c: "consistent (run L ops)" by (rule consistent_run)
  have c': "consistent (step L (run L ops) x)" using c by (rule consistent_step)
  have g: "grown (run L ops) (step L (run L ops) x)" by (rule step_heap)
  have 1: "rpcClient (run L ops) = None \<or> wsClient (run L ops) = None"
    using c by (simp add: consistent_def)
  have 2: "length (live_handles (run L ops)) \<le> 1" using c by (rule live_handles_le_one)
  have 3: "live_handles (step L (run L ops) x) = [length (heap (run L ops))]
        \<and> set_option (rpcClient (step L (run L ops) x)) \<union> set_option (wsClient (step L (run L ops) x))
            = {length (heap (run L ops))}"
    if "length (heap (run L ops)) < length (heap (step L (run L ops) x))"
    using that g live_handles_new [OF c', of "length (heap (run L ops))"] by (auto simp: grown_def)
  show ?thesis using 1 2 3 by blast
qed

theorem one_transport_at_a_time_witness:
  "length (heap (run quiet [])) < length (heap (step quiet (run quiet []) (Request (Settings to_remote))))
   \<and> live_handles (step quiet (run quiet []) (Request (Settings to_remote))) = [1]
   \<and> rpcClient (step quiet (run quiet []) (Request (Settings to_remote))) = None
   \<and> wsClient (step quiet (run quiet []) (Request (Settings to_remote))) = Some 1"
proof -
  have h: "length (heap (run quiet [])) < length (heap (step quiet (run quiet []) (Request (Settings to_remote))))"
    by code_simp
  have n: "length (heap (run quiet [])) = 1" by code_simp
  have r: "rpcClient (step quiet (run quiet []) (Request (Settings to_remote))) = None" by code_simp
  have w: "wsClient (step quiet (run quiet []) (Request (Settings to_remote))) = Some 1" by code_simp
  show ?thesis
    using one_transport_at_a_time [of quiet "[]" "Request (Settings to_remote)"] h n r w by simp
qed

subsection \<open>Configuration file\<close>

text \<open>
  C9. Whenever reading or parsing the configuration file fails, \<open>loadConfig\<close>
  returns the zero-value configuration (empty clientId, mode local, empty agentUrl)
  and prints a warning; when both succeed it returns what the parser delivered and
  prints nothing. It has a value in every case: no exception leaves it.
\<close>

theorem loadConfig_fallback:
  "(readFile L = None \<or> (\<exists>raw. readFile L = Some raw \<and> jsonParse L raw = None) \<longrightarrow>
      loadConfig L =
        (JObj [(''clientId'', JStr ''''), (''mode'', JStr ''local''), (''agentUrl'', JStr '''')],
         [ConsoleWarn ''config.json not found or invalid, using defaults.'']))
   \<and> (readFile L = Some raw \<and> jsonParse L raw = Some v \<longrightarrow> loadConfig L = (v, []))"
  by (auto simp: loadConfig_def default_config_def)

theorem loadConfig_fallback_witness:
  "loadConfig quiet =
     (JObj [(''clientId'', JStr ''''), (''mode'', JStr ''local''), (''agentUrl'', JStr '''')],
      [ConsoleWarn ''config.json not found or invalid, using defaults.''])
   \<and> loadConfig (with_file (JObj [(''mode'', JStr ''remote'')])) = (JObj [(''mode'', JStr ''remote'')], [])"
  using loadConfig_fallback [of quiet]
    loadConfig_fallback [of "with_file (JObj [(''mode'', JStr ''remote'')])" "''config''"
      "JObj [(''mode'', JStr ''remote'')]"]
  by (simp add: quiet_def with_file_def)

subsection \<open>Dispatch\<close>

lemma sendActivity_skipped:
  assumes "getProp (config s) ''mode'' = Inr m"
    and "if m = JStr ''local'' then rpcClient s = None
         else wsClient s = None \<or> (\<exists>h. wsClient s = Some h \<and> phase_of s h \<noteq> Some Ready)"
  shows "sendActivity L a s =
           (Inr (), emit (ConsoleError (if m = JStr ''local'' then ''RPC client not initialized''
                                        else ''WebSocket client not connected'')) s)"
  using assms by (auto simp: sendActivity_def split: option.splits)

lemma sendActivity_local:
  assumes "getProp (config s) ''mode'' = Inr (JStr ''local'')" and "rpcClient s = Some h"
  shows "sendActivity L a s = lib_call L (RpcSetActivity h a) s"
  using assms by (simp add: sendActivity_def)

lemma sendActivity_remote:
  assumes "getProp (config s) ''mode'' = Inr m" and "m \<noteq> JStr ''local''"
    and "wsClient s = Some h" and "phase_of s h = Some Ready"
  shows "sendActivity L a s = lib_call L (WsSend h (stringify L a)) s"
  using assms by (simp add: sendActivity_def)

lemma local_connecting_eval:
  "config local_connecting = default_config" "rpcClient local_connecting = Some 0"
  "wsClient local_connecting = None" "phase_of local_connecting 0 = Some Connecting"
  by (simp_all add: local_connecting_def run_def boot_def init_def initial_def loadConfig_def
      quiet_def default_config_def initTransport_def initLocalRpc_def lib_call_def emit_def
      set_phase_def phase_of_def Let_def)

text \<open>
  C1, as stated, fails: in local mode the client exists from \<open>init\<close> on, and while it
  is still connecting \<open>sendActivity\<close> hands the payload to \<open>setActivity\<close>; and what
  the caller gets back is the plain return of a \<open>void\<close> function, the same as after a
  send.
\<close>

theorem dispatch_not_ready_counterexample:
  "phase_of local_connecting 0 = Some Connecting
   \<and> rpcClient local_connecting = Some 0
   \<and> sendActivity quiet payload local_connecting =
       (Inr (), emit (Called (RpcSetActivity 0 payload)) local_connecting)
   \<and> filter is_send (trace (snd (sendActivity quiet payload local_connecting)))
       = [Called (RpcSetActivity 0 payload)]"
proof -
  have m: "getProp (config local_connecting) ''mode'' = Inr (JStr ''local'')"
    by (simp add: local_connecting_eval default_config_def)
  have s: "sendActivity quiet payload local_connecting =
       (Inr (), emit (Called (RpcSetActivity 0 payload)) local_connecting)"
    using sendActivity_local [OF m local_connecting_eval(2)]
    by (simp add: lib_call_def quiet_def)
  have t: "filter is_send (trace local_connecting) = []"
    by (simp add: local_connecting_def run_def boot_def init_def initial_def loadConfig_def
      quiet_def default_config_def initTransport_def initLocalRpc_def lib_call_def emit_def
      set_phase_def Let_def)
  show ?thesis using s t by (simp add: local_connecting_eval emit_simps)
qed

text \<open>
  C1, amended. When no client is set for the current mode (local: \<open>rpcClient\<close> is
  null; otherwise: \<open>wsClient\<close> is null), or the mode is not local and the socket's
  \<open>readyState\<close> is not \<open>OPEN\<close>, \<open>sendActivity\<close> prints one error line, attempts
  no send, leaves \<open>config\<close>, \<open>rpcClient\<close>, \<open>wsClient\<close> and the library objects
  alone, and returns normally: nothing is thrown, and no value is returned.
\<close>

theorem dispatch_without_client:
  assumes "getProp (config s) ''mode'' = Inr m"
    and "if m = JStr ''local'' then rpcClient s = None
         else wsClient s = None \<or> (\<exists>h. wsClient s = Some h \<and> phase_of s h \<noteq> Some Ready)"
  shows "fst (sendActivity L a s) = Inr ()
     \<and> filter is_send (trace (snd (sendActivity L a s))) = filter is_send (trace s)
     \<and> (\<exists>line. trace (snd (sendActivity L a s)) = trace s @ [ConsoleError line])
     \<and> manager (snd (sendActivity L a s)) = manager s
     \<and> heap (snd (sendActivity L a s)) = heap s"
  using sendActivity_skipped [OF assms, of L a]
  by (simp add: emit_simps manager_def)

theorem dispatch_without_client_witness:
  "fst (sendActivity quiet payload (initial quiet)) = Inr ()
     \<and> filter is_send (trace (snd (sendActivity quiet payload (initial quiet)))) = []
     \<and> manager (snd (sendActivity quiet payload (initial quiet))) = (default_config, None, None)"
proof -
  have c: "config (initial quiet) = default_config" "rpcClient (initial quiet) = None"
    "wsClient (initial quiet) = None" "filter is_send (trace (initial quiet)) = []"
    by (simp_all add: initial_def loadConfig_def quiet_def)
  have m: "getProp (config (initial quiet)) ''mode'' = Inr (JStr ''local'')"
    by (simp add: c default_config_def)
  have h: "if JStr ''local'' = JStr ''local'' then rpcClient (initial quiet) = None
         else wsClient (initial quiet) = None
              \<or> (\<exists>h. wsClient (initial quiet) = Some h \<and> phase_of (initial quiet) h \<noteq> Some Ready)"
    by (simp add: c)
  show ?thesis
    using dispatch_without_client [OF m h, of quiet payload]
    by (simp add: c manager_def)
qed

lemma remote_connecting_eval:
  "getProp (config remote_connecting) ''mode'' = Inr (JStr ''remote'')"
  "rpcClient remote_connecting = None" "wsClient remote_connecting = Some 1"
  "phase_of remote_connecting 1 = Some Connecting"
  "filter is_write (trace remote_connecting) = []"
  by code_simp+

lemma remote_open_eval:
  "getProp (config remote_open) ''mode'' = Inr (JStr ''remote'')"
  "rpcClient remote_open = None" "wsClient remote_open = Some 1"
  "phase_of remote_open 1 = Some Ready"
  by code_simp+

text \<open>
  C5, as stated, fails on what is returned: \<open>sendActivity\<close> is a \<open>void\<close> function, and
  its caller gets the same plain return before the socket's open event as after it.
  No \<open>NotConnected\<close> value reaches the caller.
\<close>

theorem remote_dispatch_return_counterexample:
  "phase_of remote_connecting 1 = Some Connecting
   \<and> phase_of remote_open 1 = Some Ready
   \<and> fst (sendActivity quiet payload remote_connecting) = Inr ()
   \<and> fst (sendActivity quiet payload remote_open) = Inr ()
   \<and> fst (update_handler quiet payload remote_connecting) = Status 204
   \<and> fst (update_handler quiet payload remote_open) = Status 204"
proof -
  have "fst (sendActivity quiet payload remote_connecting) = Inr ()" by code_simp
  moreover have "fst (sendActivity quiet payload remote_open) = Inr ()" by code_simp
  moreover have "fst (update_handler quiet payload remote_connecting) = Status 204" by code_simp
  moreover have "fst (update_handler quiet payload remote_open) = Status 204" by code_simp
  ultimately show ?thesis using remote_connecting_eval(4) remote_open_eval(4) by simp
qed

text \<open>
  C5, amended. Whenever the mode is not local (remote in particular) and either no
  socket is set or its \<open>readyState\<close> is not \<open>OPEN\<close>, \<open>sendActivity\<close> prints
  the error line "WebSocket client not connected" and returns normally without a value;
  \<open>wsClient.send\<close> is not called and nothing else changes.
\<close>

theorem remote_dispatch_before_open:
  assumes "getProp (config s) ''mode'' = Inr m" and "m \<noteq> JStr ''local''"
    and "wsClient s = None \<or> (\<exists>h. wsClient s = Some h \<and> phase_of s h \<noteq> Some Ready)"
  shows "sendActivity L a s = (Inr (), emit (ConsoleError ''WebSocket client not connected'') s)
     \<and> filter is_write (trace (snd (sendActivity L a s))) = filter is_write (trace s)"
proof -
  have "if m = JStr ''local'' then rpcClient s = None
        else wsClient s = None \<or> (\<exists>h. wsClient s = Some h \<and> phase_of s h \<noteq> Some Ready)"
    using assms(2,3) by simp
  from sendActivity_skipped [OF assms(1) this, of L a] assms(2)
  show ?thesis by (simp add: emit_simps)
qed

theorem remote_dispatch_before_open_witness:
  "sendActivity quiet payload remote_connecting =
     (Inr (), emit (ConsoleError ''WebSocket client not connected'') remote_connecting)
   \<and> filter is_write (trace (snd (sendActivity quiet payload remote_connecting))) = []"
proof -
  have n: "JStr ''remote'' \<noteq> JStr ''local''" by simp
  have w: "wsClient remote_connecting = None
     \<or> (\<exists>h. wsClient remote_connecting = Some h \<and> phase_of remote_connecting h \<noteq> Some Ready)"
    using remote_connecting_eval(3,4) by simp
  show ?thesis
    using remote_dispatch_before_open [OF remote_connecting_eval(1) n w, of quiet payload]
      remote_connecting_eval(5)
    by (simp add: emit_simps)
qed

subsection \<open>What is forwarded\<close>

lemma phase_of_emit: "phase_of (emit e s) h = phase_of s h"
  by (simp add: phase_of_def emit_simps)

lemma getProp_field_of:
  "v \<noteq> Undefined \<Longrightarrow> v \<noteq> Null \<Longrightarrow> getProp v k = Inr (field_of v k)"
  by (cases v) (simp_all add: field_of_def)

lemma activity_of_object:
  assumes "body \<noteq> Undefined" and "body \<noteq> Null"
  shows "activity_of body =
           Inr (JObj [(''details'', field_of body ''details''), (''state'', field_of body ''state''),
                      (''largeImageKey'', field_of body ''largeImageKey''),
                      (''startTimestamp'', field_of body ''startTimestamp'')])"
  by (simp add: activity_of_def getProp_field_of [OF assms])

lemma update_handler_sends:
  assumes "activity_of body = Inr a"
  shows "filter is_send (trace (snd (update_handler L body s)))
           = filter is_send (trace (snd (sendActivity L a (emit (ConsoleLog ''/update payload:'') s))))"
proof -
  obtain r s1 where e: "sendActivity L a (emit (ConsoleLog ''/update payload:'') s) = (r, s1)"
    by (cases "sendActivity L a (emit (ConsoleLog ''/update payload:'') s)")
  show ?thesis using assms e by (cases r) (simp_all add: update_handler_def emit_simps)
qed

text \<open>
  C4. A payload handed to \<open>sendActivity\<close> reaches the send call of the transport as
  it is: in local mode the object itself is the argument of \<open>setActivity\<close>, in remote
  mode with an open socket its \<open>JSON.stringify\<close> text is the argument of
  \<open>send\<close>. The /update handler builds that object from the four properties of the
  request body (a missing one stays \<open>undefined\<close>) and the one send it causes carries
  exactly that object.
\<close>

theorem payload_forwarded:
  "(getProp (config s) ''mode'' = Inr (JStr ''local'') \<and> rpcClient s = Some h \<longrightarrow>
      snd (sendActivity L a s) = emit (Called (RpcSetActivity h a)) s
      \<and> (body \<noteq> Undefined \<and> body \<noteq> Null \<longrightarrow>
           filter is_send (trace (snd (update_handler L body s))) =
             filter is_send (trace s) @
               [Called (RpcSetActivity h
                  (JObj [(''details'', field_of body ''details''), (''state'', field_of body ''state''),
                         (''largeImageKey'', field_of body ''largeImageKey''),
                         (''startTimestamp'', field_of body ''startTimestamp'')]))]))
   \<and> (getProp (config s) ''mode'' = Inr m \<and> m \<noteq> JStr ''local'' \<and> wsClient s = Some h
        \<and> phase_of s h = Some Ready \<longrightarrow>
      snd (sendActivity L a s) = emit (Called (WsSend h (stringify L a))) s
      \<and> (body \<noteq> Undefined \<and> body \<noteq> Null \<longrightarrow>
           filter is_send (trace (snd (update_handler L body s))) =
             filter is_send (trace s) @
               [Called (WsSend h (stringify L
                  (JObj [(''details'', field_of body ''details''), (''state'', field_of body ''state''),
                         (''largeImageKey'', field_of body ''largeImageKey''),
                         (''startTimestamp'', field_of body ''startTimestamp'')])))]))"
proof (intro conjI impI)
  assume l: "getProp (config s) ''mode'' = Inr (JStr ''local'') \<and> rpcClient s = Some h"
  show "snd (sendActivity L a s) = emit (Called (RpcSetActivity h a)) s"
    using l by (simp add: sendActivity_local lib_call_simps)
  assume b: "body \<noteq> Undefined \<and> body \<noteq> Null"
  let ?s1 = "emit (ConsoleLog ''/update payload:'') s"
  have "getProp (config ?s1) ''mode'' = Inr (JStr ''local'')" "rpcClient ?s1 = Some h"
    using l by (simp_all add: emit_simps)
  then have "snd (sendActivity L x ?s1) = emit (Called (RpcSetActivity h x)) ?s1" for x
    by (simp add: sendActivity_local lib_call_simps)
  then show "filter is_send (trace (snd (update_handler L body s))) =
             filter is_send (trace s) @
               [Called (RpcSetActivity h
                  (JObj [(''details'', field_of body ''details''), (''state'', field_of body ''state''),
                         (''largeImageKey'', field_of body ''largeImageKey''),
                         (''startTimestamp'', field_of body ''startTimestamp'')]))]"
    using b by (simp add: update_handler_sends [OF activity_of_object] emit_simps)
next
  assume r: "getProp (config s) ''mode'' = Inr m \<and> m \<noteq> JStr ''local'' \<and> wsClient s = Some h
        \<and> phase_of s h = Some Ready"
  show "snd (sendActivity L a s) = emit (Called (WsSend h (stringify L a))) s"
    using r by (simp add: sendActivity_remote lib_call_simps)
  assume b: "body \<noteq> Undefined \<and> body \<noteq> Null"
  let ?s1 = "emit (ConsoleLog ''/update payload:'') s"
  have "getProp (config ?s1) ''mode'' = Inr m" "wsClient ?s1 = Some h" "phase_of ?s1 h = Some Ready"
    using r by (simp_all add: emit_simps phase_of_emit)
  then have "snd (sendActivity L x ?s1) = emit (Called (WsSend h (stringify L x))) ?s1" for x
    using r by (simp add: sendActivity_remote lib_call_simps)
  then show "filter is_send (trace (snd (update_handler L body s))) =
             filter is_send (trace s) @
               [Called (WsSend h (stringify L
                  (JObj [(''details'', field_of body ''details''), (''state'', field_of body ''state''),
                         (''largeImageKey'', field_of body ''largeImageKey''),
                         (''startTimestamp'', field_of body ''startTimestamp'')])))]"
    using b by (simp add: update_handler_sends [OF activity_of_object] emit_simps)
qed

lemma local_ready_eval:
  "getProp (config local_ready) ''mode'' = Inr (JStr ''local'')"
  "rpcClient local_ready = Some 0" "phase_of local_ready 0 = Some Ready"
  "filter is_send (trace local_ready) = []"
  by code_simp+

lemma payload_fields:
  "payload \<noteq> Undefined" "payload \<noteq> Null"
  "field_of payload ''details'' = JStr ''D''" "field_of payload ''state'' = JStr ''S''"
  "field_of payload ''largeImageKey'' = JStr ''K''"
  "field_of payload ''startTimestamp'' = JNum 1700000000000"
  by (simp_all add: payload_def field_of_def)

theorem payload_forwarded_witness:
  "snd (sendActivity quiet payload local_ready) = emit (Called (RpcSetActivity 0 payload)) local_ready
   \<and> filter is_send (trace (snd (update_handler quiet payload local_ready))) =
        [Called (RpcSetActivity 0 payload)]
   \<and> snd (sendActivity quiet payload remote_open) =
        emit (Called (WsSend 1 (stringify quiet payload))) remote_open"
proof -
  have n: "JStr ''remote'' \<noteq> JStr ''local''" by simp
  have "snd (sendActivity quiet payload local_ready) = emit (Called (RpcSetActivity 0 payload)) local_ready
   \<and> filter is_send (trace (snd (update_handler quiet payload local_ready))) =
        filter is_send (trace local_ready) @ [Called (RpcSetActivity 0 payload)]"
    using payload_forwarded [of local_ready 0 quiet payload payload]
      local_ready_eval(1,2) payload_fields
    by (simp add: payload_def)
  moreover have "snd (sendActivity quiet payload remote_open) =
        emit (Called (WsSend 1 (stringify quiet payload))) remote_open"
    using payload_forwarded [of remote_open 1 quiet payload payload "JStr ''remote''"]
      remote_open_eval n
    by simp
  ultimately show ?thesis using local_ready_eval(4) by simp
qed

subsection \<open>The /test endpoint\<close>




subsection \<open>Library events\<close>

lemma fire_manager: "manager (fire h e s) = manager s"
  by (cases e; cases "kind (heap s ! h)")
     (simp_all add: fire_def Let_def manager_def emit_simps set_phase_simps)

text \<open>
  C6. The listeners of a discord-rpc client print a line for \<open>close\<close>; a WebSocket has
  no \<open>close\<close> listener, so the close of an open socket prints nothing. (No listener
  of either kind calls a library: there is no reconnection.)
\<close>

theorem ws_close_event_not_logged:
  "phase_of remote_open 1 = Some Ready
   \<and> trace (fire 1 EvClose remote_open) = trace remote_open
   \<and> phase_of (fire 1 EvClose remote_open) 1 = Some Closed
   \<and> phase_of local_ready 0 = Some Ready
   \<and> trace (fire 0 EvClose local_ready) = trace local_ready @ [ConsoleWarn ''Local RPC transport closed'']"
  by code_simp

subsection \<open>A configuration update that returns\<close>

lemma initLocalRpc_ok:
  assumes "initLocalRpc L c s = (Inr (), s')"
  shows "trace s' = trace s @ [Called RpcNew, Called (RpcRegister c), Called (RpcLogin (length (heap s)) c)]"
    and "heap s' = heap s @ [\<lparr>kind = LocalRpc, phase = Connecting, target = c\<rparr>]"
    and "rpcClient s' = Some (length (heap s))" and "wsClient s' = wsClient s"
    and "config s' = config s" and "routes s' = routes s"
  using assms
  by (auto simp: initLocalRpc_def lib_call_def Let_def emit_def set_phase_def
      split: if_splits)

lemma initRemoteWs_ok:
  assumes "initRemoteWs L a s = (Inr (), s')"
  shows "trace s' = trace s @ [Called (WsNew a)]"
    and "heap s' = heap s @ [\<lparr>kind = RemoteWs, phase = Connecting, target = a\<rparr>]"
    and "wsClient s' = Some (length (heap s))" and "rpcClient s' = rpcClient s"
    and "config s' = config s" and "routes s' = routes s"
  using assms
  by (auto simp: initRemoteWs_def lib_call_def emit_def split: if_splits)


lemma field_of_Inr: "getProp v k = Inr x \<Longrightarrow> field_of v k = x"
  by (simp add: field_of_def)

text \<open>The object a transport is built as, for a configuration.\<close>

lemma initTransport_ok:
  assumes "initTransport L s = (Inr (), s')"
  shows "config s' = config s" and "routes s' = routes s"
    and "field_of (config s) ''mode'' = JStr ''local'' \<Longrightarrow>
           trace s' = trace s @ [Called RpcNew, Called (RpcRegister (field_of (config s) ''clientId'')),
                                 Called (RpcLogin (length (heap s)) (field_of (config s) ''clientId''))]
           \<and> heap s' = heap s @ [\<lparr>kind = LocalRpc, phase = Connecting,
                                   target = field_of (config s) ''clientId''\<rparr>]
           \<and> rpcClient s' = Some (length (heap s)) \<and> wsClient s' = wsClient s"
    and "field_of (config s) ''mode'' \<noteq> JStr ''local'' \<Longrightarrow>
           trace s' = trace s @ [Called (WsNew (field_of (config s) ''agentUrl''))]
           \<and> heap s' = heap s @ [\<lparr>kind = RemoteWs, phase = Connecting,
                                   target = field_of (config s) ''agentUrl''\<rparr>]
           \<and> wsClient s' = Some (length (heap s)) \<and> rpcClient s' = rpcClient s"
proof -
  obtain m where m: "getProp (config s) ''mode'' = Inr m"
    using assms by (cases "getProp (config s) ''mode''") (simp_all add: initTransport_def)
  have fm: "field_of (config s) ''mode'' = m" using m by (rule field_of_Inr)
  show "config s' = config s" "routes s' = routes s"
    using assms m initLocalRpc_ok(5,6) [of L _ s s'] initRemoteWs_ok(5,6) [of L _ s s']
    by (auto simp: initTransport_def split: sum.splits if_splits)
  {
    assume l: "field_of (config s) ''mode'' = JStr ''local''"
    then obtain c where c: "getProp (config s) ''clientId'' = Inr c"
      and i: "initLocalRpc L c s = (Inr (), s')"
      using assms m fm by (cases "getProp (config s) ''clientId''") (simp_all add: initTransport_def)
    have fc: "field_of (config s) ''clientId'' = c" using c by (rule field_of_Inr)
    show "trace s' = trace s @ [Called RpcNew, Called (RpcRegister (field_of (config s) ''clientId'')),
                                 Called (RpcLogin (length (heap s)) (field_of (config s) ''clientId''))]
           \<and> heap s' = heap s @ [\<lparr>kind = LocalRpc, phase = Connecting,
                                   target = field_of (config s) ''clientId''\<rparr>]
           \<and> rpcClient s' = Some (length (heap s)) \<and> wsClient s' = wsClient s"
      using initLocalRpc_ok [OF i] fc by simp
  }
  {
    assume l: "field_of (config s) ''mode'' \<noteq> JStr ''local''"
    then obtain a where a: "getProp (config s) ''agentUrl'' = Inr a"
      and i: "initRemoteWs L a s = (Inr (), s')"
      using assms m fm by (cases "getProp (config s) ''agentUrl''") (simp_all add: initTransport_def)
    have fa: "field_of (config s) ''agentUrl'' = a" using a by (rule field_of_Inr)
    show "trace s' = trace s @ [Called (WsNew (field_of (config s) ''agentUrl''))]
           \<and> heap s' = heap s @ [\<lparr>kind = RemoteWs, phase = Connecting,
                                   target = field_of (config s) ''agentUrl''\<rparr>]
           \<and> wsClient s' = Some (length (heap s)) \<and> rpcClient s' = rpcClient s"
      using initRemoteWs_ok [OF i] fa by simp
  }
qed

lemma set_phase_heap: "heap (set_phase h p s) = (heap s)[h := (heap s ! h)\<lparr>phase := p\<rparr>]"
  by (cases "h < length (heap s)") (simp_all add: set_phase_def not_less list_update_beyond)

text \<open>The two releases of lines 103-104, when both return.\<close>

lemma release_pair_ok:
  assumes r1: "release_rpc L s = (Inr (), s1)" and r2: "release_ws L s1 = (Inr (), s2)"
    and c: "consistent s"
  shows "rpcClient s2 = None" and "wsClient s2 = None"
    and "config s2 = config s" and "routes s2 = routes s"
    and "held s = None \<Longrightarrow> trace s2 = trace s \<and> heap s2 = heap s"
    and "held s = Some h \<Longrightarrow>
           trace s2 = trace s @ [Called (close_call s h)]
           \<and> heap s2 = (heap s)[h := (heap s ! h)\<lparr>phase := Closed\<rparr>]"
proof -
  have one: "rpcClient s = None \<or> wsClient s = None" using c by (simp add: consistent_def)
  have a1: "(rpcClient s = None \<and> s1 = s)
      \<or> (\<exists>k. rpcClient s = Some k
            \<and> s1 = (set_phase k Closed (emit (Called (RpcDestroy k)) s))\<lparr>rpcClient := None\<rparr>)"
    using release_rpc_cases [OF r1] by (auto simp: unset_rpc_same)
  have a2: "(wsClient s1 = None \<and> s2 = s1)
      \<or> (\<exists>k. wsClient s1 = Some k
            \<and> s2 = (set_phase k Closed (emit (Called (WsClose k)) s1))\<lparr>wsClient := None\<rparr>)"
    using release_ws_cases [OF r2] by (auto simp: unset_ws_same)
  show "rpcClient s2 = None" using a1 a2 by (auto simp: emit_simps set_phase_simps)
  show "wsClient s2 = None" using a1 a2 by (auto simp: emit_simps set_phase_simps)
  show "config s2 = config s" using a1 a2 by (auto simp: emit_simps set_phase_simps)
  show "routes s2 = routes s" using a1 a2 by (auto simp: emit_simps set_phase_simps)
  show "held s = None \<Longrightarrow> trace s2 = trace s \<and> heap s2 = heap s"
    using a1 a2 by (auto simp: held_def emit_simps set_phase_simps split: option.splits)
  show "held s = Some h \<Longrightarrow>
           trace s2 = trace s @ [Called (close_call s h)]
           \<and> heap s2 = (heap s)[h := (heap s ! h)\<lparr>phase := Closed\<rparr>]"
    using a1 a2 one
    by (auto simp: held_def close_call_def emit_simps set_phase_simps set_phase_heap
        split: option.splits)
qed


lemma saveConfig_trace:
  "trace (saveConfig L c s) =
     trace s @ [Called (FsWrite c),
                if throws L (FsWrite c) (heap s) then ConsoleError ''Failed to write config.json''
                else ConsoleLog ''config.json updated'']"
  by (simp add: saveConfig_def lib_call_def emit_def)

lemma held_cong:
  "rpcClient s' = rpcClient s \<Longrightarrow> wsClient s' = wsClient s \<Longrightarrow> held s' = held s"
  by (simp add: held_def split: option.splits)

lemma close_call_cong: "rpcClient s' = rpcClient s \<Longrightarrow> close_call s' h = close_call s h"
  by (simp add: close_call_def)

lemma closes_close_call: "closes h (Called (close_call s h))"
  by (simp add: close_call_def)

lemma creates_close_call: "\<not> creates (Called (close_call s h))"
  by (simp add: close_call_def)

lemma new_config_object:
  assumes "body \<noteq> Undefined" and "body \<noteq> Null"
  shows "new_config body =
           Inr (JObj [(''clientId'', field_of body ''clientId''), (''mode'', field_of body ''mode''),
                      (''agentUrl'', field_of body ''agentUrl'')])"
  by (simp add: new_config_def getProp_field_of [OF assms])

lemma new_config_fields:
  assumes "new_config body = Inr c"
  shows "field_of c ''mode'' = field_of body ''mode''"
    and "field_of c ''clientId'' = field_of body ''clientId''"
    and "field_of c ''agentUrl'' = field_of body ''agentUrl''"
    and "body \<noteq> Undefined" and "body \<noteq> Null"
proof -
  show u: "body \<noteq> Undefined" using assms by (cases body) (simp_all add: new_config_def)
  show n: "body \<noteq> Null" using assms by (cases body) (simp_all add: new_config_def)
  have "c = JObj [(''clientId'', field_of body ''clientId''), (''mode'', field_of body ''mode''),
                      (''agentUrl'', field_of body ''agentUrl'')]"
    using new_config_object [OF u n] assms by simp
  then show "field_of c ''mode'' = field_of body ''mode''"
    and "field_of c ''clientId'' = field_of body ''clientId''"
    and "field_of c ''agentUrl'' = field_of body ''agentUrl''"
    by (simp_all add: field_of_def)
qed

text \<open>The object the handler builds for a request body.\<close>

lemma settings_try_steps:
  assumes ok: "settings_try L body s = (Inr (), s')" and c: "consistent s"
  shows "\<exists>cfg s1 s2. new_config body = Inr cfg \<and> release_rpc L (saveConfig L cfg (s\<lparr>config := cfg\<rparr>)) = (Inr (), s1)
     \<and> release_ws L s1 = (Inr (), s2) \<and> initTransport L s2 = (Inr (), s')"
proof -
  obtain cfg where cfg: "new_config body = Inr cfg"
    using ok by (cases "new_config body") (simp_all add: settings_try_def)
  define s0 where "s0 = saveConfig L cfg (s\<lparr>config := cfg\<rparr>)"
  have run: "seq (release_rpc L) (seq (release_ws L) (initTransport L)) s0 = (Inr (), s')"
    using ok cfg by (simp add: settings_try_def s0_def)
  from seq_cases [OF run] obtain s1 where r1: "release_rpc L s0 = (Inr (), s1)"
    and run2: "seq (release_ws L) (initTransport L) s1 = (Inr (), s')" by auto
  from seq_cases [OF run2] obtain s2 where r2: "release_ws L s1 = (Inr (), s2)"
    and i: "initTransport L s2 = (Inr (), s')" by auto
  show ?thesis using cfg r1 r2 i unfolding s0_def by blast
qed

lemma settings_try_ok:
  assumes ok: "settings_try L body s = (Inr (), s')" and c: "consistent s"
  shows "new_config body = Inr (config s')" and "routes s' = routes s"
    and "held s' = Some (length (heap s))"
    and "heap s' =
           (case held s of None \<Rightarrow> heap s | Some h \<Rightarrow> (heap s)[h := (heap s ! h)\<lparr>phase := Closed\<rparr>])
           @ [if field_of body ''mode'' = JStr ''local''
              then \<lparr>kind = LocalRpc, phase = Connecting, target = field_of body ''clientId''\<rparr>
              else \<lparr>kind = RemoteWs, phase = Connecting, target = field_of body ''agentUrl''\<rparr>]"
    and "held s = Some h \<Longrightarrow> map (closes h) (lifecycle h (added s s')) = [True, False]"
    and "held s = None \<Longrightarrow> map (closes h) (lifecycle h (added s s')) = [False]"
    and "trace s' = trace s @ added s s'"
proof -
  from settings_try_steps [OF ok c] obtain cfg s1 s2 where cfg: "new_config body = Inr cfg"
    and r1: "release_rpc L (saveConfig L cfg (s\<lparr>config := cfg\<rparr>)) = (Inr (), s1)"
    and r2: "release_ws L s1 = (Inr (), s2)" and i: "initTransport L s2 = (Inr (), s')"
    by blast
  let ?s0 = "saveConfig L cfg (s\<lparr>config := cfg\<rparr>)"
  have c0: "consistent ?s0"
    using c by (simp add: consistent_saveConfig consistent_config_update)
  have f0: "config ?s0 = cfg" "rpcClient ?s0 = rpcClient s" "wsClient ?s0 = wsClient s"
    "heap ?s0 = heap s" "routes ?s0 = routes s"
    by (simp_all add: saveConfig_simps)
  have h0: "held ?s0 = held s" using f0(2,3) by (rule held_cong)
  have t0: "trace ?s0 = trace s @ [Called (FsWrite cfg),
                if throws L (FsWrite cfg) (heap s) then ConsoleError ''Failed to write config.json''
                else ConsoleLog ''config.json updated'']"
    by (simp add: saveConfig_trace)
  note p = release_pair_ok [OF r1 r2 c0]
  note q = initTransport_ok [OF i]
  have cfg2: "config s2 = cfg" using p(3) f0(1) by simp
  show "new_config body = Inr (config s')" using cfg q(1) cfg2 by simp
  show "routes s' = routes s" using q(2) p(4) f0(5) by simp
  have hp2: "heap s2 = (case held s of None \<Rightarrow> heap s | Some h \<Rightarrow> (heap s)[h := (heap s ! h)\<lparr>phase := Closed\<rparr>])"
  proof (cases "held s")
    case None
    then have "held ?s0 = None" using h0 by simp
    then show ?thesis using p(5) None f0(4) by simp
  next
    case (Some k)
    then have "held ?s0 = Some k" using h0 by simp
    then show ?thesis using p(6) [of k] Some f0(4) by simp
  qed
  have len2: "length (heap s2) = length (heap s)"
    using hp2 by (cases "held s") simp_all
  have m: "field_of (config s2) ''mode'' = field_of body ''mode''"
    "field_of (config s2) ''clientId'' = field_of body ''clientId''"
    "field_of (config s2) ''agentUrl'' = field_of body ''agentUrl''"
    using new_config_fields(1-3) [OF cfg] by (simp_all add: cfg2)
  have none2: "rpcClient s2 = None" "wsClient s2 = None" by (rule p(1), rule p(2))
  show "held s' = Some (length (heap s))"
  proof (cases "field_of (config s2) ''mode'' = JStr ''local''")
    case True
    from q(3) [OF True] show ?thesis by (simp add: held_def len2)
  next
    case False
    from q(4) [OF False] show ?thesis by (simp add: held_def len2 none2)
  qed
  show "heap s' =
           (case held s of None \<Rightarrow> heap s | Some h \<Rightarrow> (heap s)[h := (heap s ! h)\<lparr>phase := Closed\<rparr>])
           @ [if field_of body ''mode'' = JStr ''local''
              then \<lparr>kind = LocalRpc, phase = Connecting, target = field_of body ''clientId''\<rparr>
              else \<lparr>kind = RemoteWs, phase = Connecting, target = field_of body ''agentUrl''\<rparr>]"
  proof (cases "field_of (config s2) ''mode'' = JStr ''local''")
    case True
    from q(3) [OF True] True show ?thesis by (simp add: m hp2)
  next
    case False
    from q(4) [OF False] False show ?thesis by (simp add: m hp2)
  qed
  have nw: "\<exists>n rest. trace s' = trace s2 @ n # rest \<and> creates n \<and> \<not> closes h n
              \<and> lifecycle h rest = []"
  proof (cases "field_of (config s2) ''mode'' = JStr ''local''")
    case True
    from q(3) [OF True] show ?thesis by (simp add: lifecycle_def)
  next
    case False
    from q(4) [OF False] show ?thesis by (simp add: lifecycle_def)
  qed
  then obtain n rest where n: "trace s' = trace s2 @ n # rest" "creates n" "\<not> closes h n"
    "lifecycle h rest = []" by blast
  have ext: "\<exists>xs. trace s' = trace s @ xs"
  proof (cases "held s")
    case None
    then have "held ?s0 = None" using h0 by simp
    then have "trace s2 = trace ?s0" using p(5) by simp
    then show ?thesis unfolding n(1) t0 by simp
  next
    case (Some k)
    then have "held ?s0 = Some k" using h0 by simp
    then have "trace s2 = trace ?s0 @ [Called (close_call ?s0 k)]" using p(6) [of k] by simp
    then show ?thesis unfolding n(1) t0 by simp
  qed
  then show "trace s' = trace s @ added s s'" by (auto simp: added_def)
  let ?pre = "[Called (FsWrite cfg),
                if throws L (FsWrite cfg) (heap s) then ConsoleError ''Failed to write config.json''
                else ConsoleLog ''config.json updated'']"
  have l0: "lifecycle h ?pre = []" by (simp add: lifecycle_def)
  {
    assume hs: "held s = Some h"
    then have "held ?s0 = Some h" using h0 by simp
    then have t2: "trace s2 = trace ?s0 @ [Called (close_call s h)]"
      using p(6) [of h] close_call_cong [OF f0(2), of h] by simp
    have "trace s' = trace s @ (?pre @ Called (close_call s h) # n # rest)"
      unfolding n(1) t2 t0 by simp
    then have "added s s' = ?pre @ Called (close_call s h) # n # rest"
      unfolding added_def by simp
    then have "lifecycle h (added s s') = [Called (close_call s h), n]"
      using l0 n(2,4) closes_close_call [of h s] by (simp add: lifecycle_def)
    then show "map (closes h) (lifecycle h (added s s')) = [True, False]"
      using n(3) closes_close_call [of h s] by simp
  }
  {
    assume hs: "held s = None"
    then have "held ?s0 = None" using h0 by simp
    then have t2: "trace s2 = trace ?s0" using p(5) by simp
    have "trace s' = trace s @ (?pre @ n # rest)"
      unfolding n(1) t2 t0 by simp
    then have "added s s' = ?pre @ n # rest"
      unfolding added_def by simp
    then have "lifecycle h (added s s') = [n]"
      using l0 n(2,4) by (simp add: lifecycle_def)
    then show "map (closes h) (lifecycle h (added s s')) = [False]"
      using n(3) by simp
  }
qed

lemma settings_handler_ok:
  assumes "fst (settings_handler L body s) = Status 204"
  shows "settings_try L body s = (Inr (), snd (settings_handler L body s))"
proof -
  obtain r s1 where e: "settings_try L body s = (r, s1)" by (cases "settings_try L body s")
  show ?thesis using assms e by (cases r) (simp_all add: settings_handler_def)
qed

lemma handle_request_settings_ok:
  assumes "fst (handle_request L (Settings body) s) = Status 204"
  shows "routes s" and "settings_try L body s = (Inr (), snd (handle_request L (Settings body) s))"
proof -
  show r: "routes s" using assms by (cases "routes s") (simp_all add: handle_request_def)
  then have "handle_request L (Settings body) s = settings_handler L body s"
    by (simp add: handle_request_def)
  then show "settings_try L body s = (Inr (), snd (handle_request L (Settings body) s))"
    using assms settings_handler_ok [of L body s] by simp
qed

subsection \<open>Library events between requests\<close>

lemma run_append: "run L (xs @ ys) = foldl (step L) (run L xs) ys"
  by (simp add: run_def)

lemma no_call_no_lifecycle: "filter is_call xs = [] \<Longrightarrow> lifecycle k xs = []"
proof (induction xs)
  case Nil
  then show ?case by (simp add: lifecycle_def)
next
  case (Cons x xs)
  then show ?case by (cases x) (simp_all add: lifecycle_def split: if_splits)
qed

lemma fire_routes: "routes (fire h e s) = routes s"
  by (cases e; cases "kind (heap s ! h)")
     (simp_all add: fire_def Let_def emit_simps set_phase_simps)

lemma fire_trace:
  "\<exists>xs. trace (fire h e s) = trace s @ xs \<and> filter is_call xs = []"
  by (cases e; cases "kind (heap s ! h)")
     (simp_all add: fire_def Let_def emit_simps set_phase_simps)

lemma held_manager: "manager s' = manager s \<Longrightarrow> held s' = held s"
  by (rule held_cong) (simp_all add: manager_def)

lemma fires_keep:
  "manager (foldl (step L) s (fires evs)) = manager s
   \<and> routes (foldl (step L) s (fires evs)) = routes s
   \<and> length (heap (foldl (step L) s (fires evs))) = length (heap s)
   \<and> (consistent s \<longrightarrow> consistent (foldl (step L) s (fires evs)))
   \<and> (\<exists>xs. trace (foldl (step L) s (fires evs)) = trace s @ xs \<and> filter is_call xs = [])"
proof (induction evs arbitrary: s)
  case Nil
  then show ?case by (simp add: fires_def)
next
  case (Cons x evs)
  obtain h e where x: "x = (h, e)" by (cases x)
  have f: "foldl (step L) s (fires (x # evs)) = foldl (step L) (fire h e s) (fires evs)"
    by (simp add: fires_def x)
  note ih = Cons.IH [of "fire h e s"]
  obtain xs where xs: "trace (fire h e s) = trace s @ xs" "filter is_call xs = []"
    using fire_trace [of h e s] by blast
  obtain ys where ys: "trace (foldl (step L) (fire h e s) (fires evs)) = trace (fire h e s) @ ys"
    "filter is_call ys = []" using ih by blast
  have "trace (foldl (step L) (fire h e s) (fires evs)) = trace s @ (xs @ ys)"
    "filter is_call (xs @ ys) = []"
    using xs ys by simp_all
  then have t: "\<exists>zs. trace (foldl (step L) (fire h e s) (fires evs)) = trace s @ zs
                \<and> filter is_call zs = []" by blast
  have m: "manager (foldl (step L) (fire h e s) (fires evs)) = manager s"
    using ih by (simp add: fire_manager)
  have r: "routes (foldl (step L) (fire h e s) (fires evs)) = routes s"
    using ih by (simp add: fire_routes)
  have l: "length (heap (foldl (step L) (fire h e s) (fires evs))) = length (heap s)"
    using ih by (simp add: fire_length)
  have c: "consistent s \<longrightarrow> consistent (foldl (step L) (fire h e s) (fires evs))"
    using ih consistent_fire [of s h e] by blast
  show ?case unfolding f using m r l c t by blast
qed

lemma held_references:
  assumes "consistent s" and "held s = Some n"
  shows "set_option (rpcClient s) \<union> set_option (wsClient s) = {n}"
proof -
  have "rpcClient s = None \<or> wsClient s = None" using assms(1) by (simp add: consistent_def)
  then show ?thesis using assms(2) by (auto simp: held_def split: option.splits)
qed

lemma length_closed_heap:
  "length (case r of None \<Rightarrow> hp | Some h \<Rightarrow> hp[h := x h]) = length hp"
  by (cases r) simp_all

subsection \<open>Swapping the transport\<close>

text \<open>
  C3, as stated for every pair of configurations, fails: the second update closes the
  first one's handle and then constructs the new one inside a \<open>try\<close>; when the
  constructor raises, the handler answers 500 and no handle at all is left.
\<close>

theorem reconfigure_counterexample:
  "fst (handle_request refusing (Settings to_local) (run refusing [])) = Status 204
   \<and> fst (handle_request refusing (Settings remote_no_url) (run refusing [Request (Settings to_local)]))
       = StatusText 500 ''Internal Server Error''
   \<and> held (run refusing [Request (Settings to_local), Request (Settings remote_no_url)]) = None
   \<and> live_handles (run refusing [Request (Settings to_local), Request (Settings remote_no_url)]) = []"
  by code_simp

text \<open>
  C3, amended. Let a configuration update with body \<open>a\<close> return 204, let any library
  events follow (none, or the new handle becoming ready, or anything else), and let a
  second update with body \<open>b\<close> return 204. Then the handle held when the second update
  arrives is the one the first update built; from the end of the first update to the
  end of the second, the calls that close that handle or construct a handle are exactly
  two, its close first and the construction second; afterwards the one live handle, and
  the one held, is the new object, built for the mode and the client id or agent URL of
  \<open>b\<close>; and no library event, on the abandoned handle or any other, changes
  \<open>config\<close>, \<open>rpcClient\<close> or \<open>wsClient\<close>.
\<close>

theorem reconfigure_swaps_handle:
  fixes L ops a evs b
  defines "hA \<equiv> length (heap (run L ops))"
    and "sA \<equiv> run L (ops @ [Request (Settings a)])"
    and "s1 \<equiv> run L (ops @ Request (Settings a) # fires evs)"
  defines "s2 \<equiv> snd (handle_request L (Settings b) s1)"
  assumes A: "fst (handle_request L (Settings a) (run L ops)) = Status 204"
    and B: "fst (handle_request L (Settings b) s1) = Status 204"
  shows "held s1 = Some hA
       \<and> map (closes hA) (lifecycle hA (added sA s2)) = [True, False]
       \<and> held s2 = Some (Suc hA)
       \<and> live_handles s2 = [Suc hA]
       \<and> heap s2 ! Suc hA =
            (if field_of b ''mode'' = JStr ''local''
             then \<lparr>kind = LocalRpc, phase = Connecting, target = field_of b ''clientId''\<rparr>
             else \<lparr>kind = RemoteWs, phase = Connecting, target = field_of b ''agentUrl''\<rparr>)
       \<and> (\<forall>h e. manager (fire h e s2) = manager s2)"
proof -
  let ?s = "run L ops"
  have cs: "consistent ?s" by (rule consistent_run)
  have sA_step: "sA = snd (handle_request L (Settings a) ?s)"
    by (simp add: sA_def run_append)
  note a = handle_request_settings_ok [OF A]
  have tryA: "settings_try L a ?s = (Inr (), sA)" using a(2) sA_step by simp
  note okA = settings_try_ok [OF tryA cs]
  have cA: "consistent sA" using consistent_settings_try [OF cs, of L a] tryA by simp
  have heldA: "held sA = Some hA" using okA(3) by (simp add: hA_def)
  have lenA: "length (heap sA) = Suc hA"
    unfolding okA(4) hA_def by (simp add: length_closed_heap)
  have rA: "routes sA" using okA(2) a(1) by simp
  have s1_run: "s1 = foldl (step L) sA (fires evs)"
    by (simp add: s1_def sA_def run_append)
  note k = fires_keep [of L sA evs]
  have held1: "held s1 = Some hA"
    using k heldA held_manager [of s1 sA] by (simp add: s1_run)
  have len1: "length (heap s1) = Suc hA" using k lenA by (simp add: s1_run)
  have c1: "consistent s1" using k cA by (simp add: s1_run)
  obtain xs where xs: "trace s1 = trace sA @ xs" "filter is_call xs = []"
    using k unfolding s1_run by blast
  note b = handle_request_settings_ok [OF B]
  have tryB: "settings_try L b s1 = (Inr (), s2)" using b(2) by (simp add: s2_def)
  note okB = settings_try_ok [OF tryB c1]
  have c2: "consistent s2" using consistent_settings_try [OF c1, of L b] tryB by simp
  have held2: "held s2 = Some (Suc hA)" using okB(3) len1 by simp
  let ?x = "if field_of b ''mode'' = JStr ''local''
             then \<lparr>kind = LocalRpc, phase = Connecting, target = field_of b ''clientId''\<rparr>
             else \<lparr>kind = RemoteWs, phase = Connecting, target = field_of b ''agentUrl''\<rparr>"
  have nth2: "heap s2 ! Suc hA = ?x"
    unfolding okB(4) using len1 by (simp add: nth_append length_closed_heap)
  have len2: "length (heap s2) = Suc (Suc hA)"
    unfolding okB(4) using len1 by (simp add: length_closed_heap)
  have ph: "phase (heap s2 ! Suc hA) \<noteq> Closed" unfolding nth2 by simp
  have live2: "live_handles s2 = [Suc hA]"
    using live_handles_new [OF c2 len2 held_references [OF c2 held2] ph] .
  define ys where "ys = added s1 s2"
  have "trace s2 = trace sA @ (xs @ ys)" using okB(7) xs(1) by (simp add: ys_def)
  then have "added sA s2 = xs @ ys" by (simp add: added_def)
  then have "lifecycle hA (added sA s2) = lifecycle hA xs @ lifecycle hA (added s1 s2)"
    by (simp add: lifecycle_def ys_def)
  then have lc: "map (closes hA) (lifecycle hA (added sA s2)) = [True, False]"
    using no_call_no_lifecycle [OF xs(2), of hA] okB(5) [OF held1] by simp
  show ?thesis using held1 lc held2 live2 nth2 fire_manager by blast
qed

theorem reconfigure_swaps_handle_witness:
  "held (run quiet [Request (Settings to_remote), Fire 1 EvReady]) = Some 1
   \<and> map (closes 1)
        (lifecycle 1
           (added (run quiet [Request (Settings to_remote)])
              (run quiet [Request (Settings to_remote), Fire 1 EvReady, Request (Settings to_local)])))
       = [True, False]
   \<and> live_handles (run quiet [Request (Settings to_remote), Fire 1 EvReady, Request (Settings to_local)])
       = [2]
   \<and> heap (run quiet [Request (Settings to_remote), Fire 1 EvReady, Request (Settings to_local)]) ! 2
       = \<lparr>kind = LocalRpc, phase = Connecting, target = JStr ''abc''\<rparr>"
proof -
  have A: "fst (handle_request quiet (Settings to_remote) (run quiet [])) = Status 204"
    by code_simp
  have B: "fst (handle_request quiet (Settings to_local)
             (run quiet ([] @ Request (Settings to_remote) # fires [(1, EvReady)]))) = Status 204"
    by code_simp
  have h: "length (heap (run quiet [])) = 1" by code_simp
  have e: "run quiet ([] @ Request (Settings to_remote) # fires [(1, EvReady)])
             = run quiet [Request (Settings to_remote), Fire 1 EvReady]"
    by (simp add: fires_def)
  have s2: "snd (handle_request quiet (Settings to_local)
               (run quiet [Request (Settings to_remote), Fire 1 EvReady]))
             = run quiet [Request (Settings to_remote), Fire 1 EvReady, Request (Settings to_local)]"
    by (simp add: run_def)
  have f: "field_of to_local ''mode'' = JStr ''local''" "field_of to_local ''clientId'' = JStr ''abc''"
    by (simp_all add: to_local_def field_of_def)
  show ?thesis
    using reconfigure_swaps_handle [OF A B] unfolding h e s2 by (simp add: f numeral_2_eq_2)
qed

subsection \<open>Teardown\<close>

lemma held_None: "held s = None \<longleftrightarrow> rpcClient s = None \<and> wsClient s = None"
  by (simp add: held_def split: option.splits)

lemma held_Some_consistent:
  assumes "consistent s" and "held s = Some h"
  shows "h < length (heap s)"
    and "rpcClient s = Some h \<and> wsClient s = None \<or> rpcClient s = None \<and> wsClient s = Some h"
proof -
  have one: "rpcClient s = None \<or> wsClient s = None"
    and r: "\<And>k. rpcClient s = Some k \<Longrightarrow> k < length (heap s)"
    and w: "\<And>k. wsClient s = Some k \<Longrightarrow> k < length (heap s)"
    using assms(1) by (simp_all add: consistent_iff)
  show 2: "rpcClient s = Some h \<and> wsClient s = None \<or> rpcClient s = None \<and> wsClient s = Some h"
    using one assms(2) by (auto simp: held_def split: option.splits)
  then show "h < length (heap s)" using r w by blast
qed

text \<open>What \<open>exit\<close> does in a consistent state: one close call at most.\<close>

lemma exit_cases:
  assumes "consistent s"
  shows "(held s = None \<and> exit L s = (Inr (), emit (ConsoleLog ''Plugin exited'') s))
     \<or> (\<exists>h. held s = Some h \<and> throws L (close_call s h) (heap s)
            \<and> exit L s = (Inl (Raised (close_call s h)),
                           emit (Called (close_call s h)) (emit (ConsoleLog ''Plugin exited'') s)))
     \<or> (\<exists>h. held s = Some h \<and> \<not> throws L (close_call s h) (heap s)
            \<and> exit L s = (Inr (),
                 set_phase h Closed
                   (emit (Called (close_call s h)) (emit (ConsoleLog ''Plugin exited'') s))))"
proof (cases "held s")
  case None
  then have "rpcClient s = None" "wsClient s = None" by (simp_all add: held_None)
  then have "exit L s = (Inr (), emit (ConsoleLog ''Plugin exited'') s)"
    by (simp add: exit_def seq_def close_rpc_def close_ws_def emit_simps)
  then show ?thesis using None by simp
next
  case (Some h)
  let ?s0 = "emit (ConsoleLog ''Plugin exited'') s"
  from held_Some_consistent(2) [OF assms Some]
  show ?thesis
  proof
    assume a: "rpcClient s = Some h \<and> wsClient s = None"
    then have cc: "close_call s h = RpcDestroy h" by (simp add: close_call_def)
    show ?thesis
    proof (cases "throws L (RpcDestroy h) (heap s)")
      case True
      then have "exit L s = (Inl (Raised (RpcDestroy h)), emit (Called (RpcDestroy h)) ?s0)"
        using a by (simp add: exit_def seq_def close_rpc_def lib_call_def emit_simps)
      then show ?thesis using Some True cc by simp
    next
      case False
      then have "exit L s = (Inr (), set_phase h Closed (emit (Called (RpcDestroy h)) ?s0))"
        using a
        by (simp add: exit_def seq_def close_rpc_def close_ws_def lib_call_def emit_simps
            set_phase_simps)
      then show ?thesis using Some False cc by simp
    qed
  next
    assume a: "rpcClient s = None \<and> wsClient s = Some h"
    then have cc: "close_call s h = WsClose h" by (simp add: close_call_def)
    show ?thesis
    proof (cases "throws L (WsClose h) (heap s)")
      case True
      then have "exit L s = (Inl (Raised (WsClose h)), emit (Called (WsClose h)) ?s0)"
        using a by (simp add: exit_def seq_def close_rpc_def close_ws_def lib_call_def emit_simps)
      then show ?thesis using Some True cc by simp
    next
      case False
      then have "exit L s = (Inr (), set_phase h Closed (emit (Called (WsClose h)) ?s0))"
        using a
        by (simp add: exit_def seq_def close_rpc_def close_ws_def lib_call_def emit_simps)
      then show ?thesis using Some False cc by simp
    qed
  qed
qed

lemma manager_emit: "manager (emit e s) = manager s"
  by (simp add: manager_def emit_simps)

lemma manager_set_phase: "manager (set_phase h p s) = manager s"
  by (simp add: manager_def set_phase_simps)

lemma routes_exit_manager:
  assumes "consistent s"
  shows "manager (snd (exit L s)) = manager s" and "routes (snd (exit L s)) = routes s"
  using exit_cases [OF assms, of L]
  by (auto simp: manager_emit manager_set_phase emit_simps set_phase_simps)

lemma phase_of_set_phase:
  "phase_of (set_phase k p s) h = (if h = k \<and> k < length (heap s) then Some p else phase_of s h)"
  by (simp add: phase_of_def set_phase_def)

lemma closed_everywhere:
  "live_handles s = [] \<longleftrightarrow> (\<forall>h < length (heap s). phase_of s h = Some Closed)"
  by (auto simp: live_handles_def live_def phase_of_def filter_empty_conv)






subsection \<open>No rollback\<close>

lemma sendActivity_manager: "manager (snd (sendActivity L a s)) = manager s"
  using sendActivity_state [of L a s] by (auto simp: manager_emit)

lemma update_handler_manager: "manager (snd (update_handler L body s)) = manager s"
proof (cases "activity_of body")
  case (Inl e)
  then show ?thesis by (simp add: update_handler_def manager_emit)
next
  case (Inr a)
  obtain r s1 where e: "sendActivity L a (emit (ConsoleLog ''/update payload:'') s) = (r, s1)"
    by (cases "sendActivity L a (emit (ConsoleLog ''/update payload:'') s)")
  have "manager s1 = manager s"
    using sendActivity_manager [of L a "emit (ConsoleLog ''/update payload:'') s"] e
    by (simp add: manager_emit)
  then show ?thesis using Inr e by (cases r) (simp_all add: update_handler_def manager_emit)
qed

lemma test_handler_manager: "manager (snd (test_handler L now s)) = manager s"
proof -
  obtain r s1 where e: "sendActivity L (dummy now) (emit (ConsoleLog ''/test invoked'') s) = (r, s1)"
    by (cases "sendActivity L (dummy now) (emit (ConsoleLog ''/test invoked'') s)")
  have "manager s1 = manager s"
    using sendActivity_manager [of L "dummy now" "emit (ConsoleLog ''/test invoked'') s"] e
    by (simp add: manager_emit)
  then show ?thesis using e by (cases r) (simp_all add: test_handler_def)
qed

lemma phase_of_heap: "heap s' = heap s \<Longrightarrow> phase_of s' h = phase_of s h"
  by (simp add: phase_of_def)

lemma exit_keeps_closed:
  assumes "consistent s" and "phase_of s h = Some Closed"
  shows "phase_of (snd (exit L s)) h = Some Closed"
  using exit_cases [OF assms(1), of L] assms(2)
  by (auto simp: phase_of_emit phase_of_set_phase)

lemma fire_keeps_closed:
  assumes "phase_of s h = Some Closed"
  shows "phase_of (fire k e s) h = Some Closed"
proof (cases "k < length (heap s) \<and> phase (heap s ! k) \<noteq> Uninitialized")
  case False
  then have "fire k e s = s" by (auto simp: fire_def)
  then show ?thesis using assms by simp
next
  case True
  let ?s1 = "set_phase k (phase_after e (phase (heap s ! k))) s"
  have "phase_of ?s1 h = Some Closed"
  proof (cases "h = k")
    case True
    then have "phase (heap s ! k) = Closed" using assms by (simp add: phase_of_def split: if_splits)
    then have "phase_after e (phase (heap s ! k)) = Closed" by (cases e) simp_all
    then show ?thesis using True \<open>k < length (heap s) \<and> phase (heap s ! k) \<noteq> Uninitialized\<close>
      by (simp add: phase_of_set_phase)
  next
    case False
    then show ?thesis using assms by (simp add: phase_of_set_phase)
  qed
  then show ?thesis using True
    by (cases e; cases "kind (heap s ! k)") (simp_all add: fire_def Let_def phase_of_emit)
qed

text \<open>A step that is not a configuration update.\<close>

lemma other_step:
  assumes "\<not> is_settings x" and "consistent s"
  shows "manager (step L s x) = manager s"
    and "length (heap (step L s x)) = length (heap s)"
    and "phase_of s h = Some Closed \<Longrightarrow> phase_of (step L s x) h = Some Closed"
proof -
  have "manager (step L s x) = manager s
      \<and> length (heap (step L s x)) = length (heap s)
      \<and> (phase_of s h = Some Closed \<longrightarrow> phase_of (step L s x) h = Some Closed)"
  proof (cases x)
    case (Request r)
    show ?thesis
    proof (cases "routes s")
      case False
      then show ?thesis using Request by (simp add: handle_request_def)
    next
      case True
      show ?thesis
      proof (cases r)
        case Probe
        then show ?thesis using Request True by (simp add: handle_request_def)
      next
        case (Settings b)
        then show ?thesis using Request assms(1) by simp
      next
        case (Update b)
        then show ?thesis using Request True
          by (simp add: handle_request_def update_handler_manager update_handler_heap
              phase_of_heap [OF update_handler_heap])
      next
        case (Test n)
        then show ?thesis using Request True
          by (simp add: handle_request_def test_handler_manager test_handler_heap
              phase_of_heap [OF test_handler_heap])
      qed
    qed
  next
    case Exit
    then show ?thesis
      using routes_exit_manager(1) [OF assms(2), of L] exit_keeps_closed [OF assms(2), where h = h and L = L]
      by (simp add: exit_length)
  next
    case (Fire k e)
    then show ?thesis using fire_keeps_closed [of s h k e]
      by (simp add: fire_manager fire_length)
  qed
  then show "manager (step L s x) = manager s"
    and "length (heap (step L s x)) = length (heap s)"
    and "phase_of s h = Some Closed \<Longrightarrow> phase_of (step L s x) h = Some Closed"
    by simp_all
qed

lemma other_steps:
  assumes "\<forall>x \<in> set xs. \<not> is_settings x" and "consistent s"
  shows "manager (foldl (step L) s xs) = manager s
       \<and> length (heap (foldl (step L) s xs)) = length (heap s)
       \<and> (\<forall>h. phase_of s h = Some Closed \<longrightarrow> phase_of (foldl (step L) s xs) h = Some Closed)"
  using assms
proof (induction xs arbitrary: s)
  case Nil
  then show ?case by simp
next
  case (Cons x xs)
  have nx: "\<not> is_settings x" and nxs: "\<forall>y \<in> set xs. \<not> is_settings y" using Cons.prems(1) by simp_all
  have c': "consistent (step L s x)" using Cons.prems(2) by (rule consistent_step)
  note st = other_step [OF nx Cons.prems(2), where L = L]
  note ih = Cons.IH [OF nxs c']
  have "manager (foldl (step L) (step L s x) xs) = manager s" using ih st(1) by simp
  moreover have "length (heap (foldl (step L) (step L s x) xs)) = length (heap s)"
    using ih st(2) by simp
  moreover have "phase_of (foldl (step L) (step L s x) xs) h = Some Closed"
    if "phase_of s h = Some Closed" for h
    using ih st(3) [of h] that by blast
  ultimately show ?case by simp
qed

lemma stays_dead:
  assumes "\<forall>x \<in> set xs. \<not> is_settings x" and "consistent s" and "live_handles s = []"
  shows "live_handles (foldl (step L) s xs) = []"
  using other_steps [OF assms(1,2), of L] assms(3)
  by (simp add: closed_everywhere)

lemma settings_handler_config:
  assumes "body \<noteq> Undefined" and "body \<noteq> Null"
  shows "config (snd (settings_handler L body s)) =
           JObj [(''clientId'', field_of body ''clientId''), (''mode'', field_of body ''mode''),
                 (''agentUrl'', field_of body ''agentUrl'')]"
proof -
  let ?c = "JObj [(''clientId'', field_of body ''clientId''), (''mode'', field_of body ''mode''),
                 (''agentUrl'', field_of body ''agentUrl'')]"
  let ?s0 = "saveConfig L ?c (s\<lparr>config := ?c\<rparr>)"
  have n: "new_config body = Inr ?c" by (rule new_config_object [OF assms])
  have t: "settings_try L body s = seq (release_rpc L) (seq (release_ws L) (initTransport L)) ?s0"
    using n by (simp add: settings_try_def)
  have c0: "config ?s0 = ?c" by (simp add: saveConfig_simps)
  have k1: "config (snd (release_rpc L u)) = config u" for u
  proof -
    obtain r u' where e: "release_rpc L u = (r, u')" by (cases "release_rpc L u")
    show ?thesis using release_rpc_cases [OF e] e by (auto simp: emit_simps set_phase_simps)
  qed
  have k2: "config (snd (release_ws L u)) = config u" for u
  proof -
    obtain r u' where e: "release_ws L u = (r, u')" by (cases "release_ws L u")
    show ?thesis using release_ws_cases [OF e] e by (auto simp: emit_simps set_phase_simps)
  qed
  have k3: "config (snd (initLocalRpc L c u)) = config u" for c u
    by (auto simp: initLocalRpc_def lib_call_def Let_def emit_simps set_phase_simps
        split: if_splits)
  have k4: "config (snd (initRemoteWs L a u)) = config u" for a u
    by (auto simp: initRemoteWs_def lib_call_def emit_simps split: if_splits)
  have k5: "config (snd (initTransport L u)) = config u" for u
    by (simp add: initTransport_def k3 k4 split: sum.splits)
  have sq: "config (snd (seq f g u)) = config u"
    if "\<And>v. config (snd (f v)) = config v" and "\<And>v. config (snd (g v)) = config v"
    for f g and u :: state
  proof -
    obtain r v where e: "f u = (r, v)" by (cases "f u")
    have "config v = config u" using that(1) [of u] e by simp
    then show ?thesis using e that(2) [of v] by (cases r) (simp_all add: seq_def)
  qed
  have "config (snd (settings_try L body s)) = ?c"
    unfolding t using sq [of "release_rpc L" "seq (release_ws L) (initTransport L)" ?s0]
      sq [of "release_ws L" "initTransport L"] k1 k2 k5 c0 by simp
  then show ?thesis
    by (cases "settings_try L body s"; cases "fst (settings_try L body s)")
       (simp_all add: settings_handler_def emit_simps)
qed

lemma phase_of_listener:
  "phase_of (rpc_listener e s) h = phase_of s h" "phase_of (ws_listener e s) h = phase_of s h"
  by (cases e; simp add: phase_of_emit)+

lemma fire_failure:
  assumes "h < length (heap s)" and "phase (heap s ! h) \<noteq> Uninitialized" and "e \<noteq> EvReady"
  shows "phase_of (fire h e s) h = Some Closed"
proof -
  have p: "phase_after e (phase (heap s ! h)) = Closed" using assms(3) by (cases e) simp_all
  have "phase_of (set_phase h Closed s) h = Some Closed"
    using assms(1) by (simp add: phase_of_set_phase)
  then show ?thesis using assms(1,2) p
    by (cases "kind (heap s ! h)") (simp_all add: fire_def Let_def phase_of_listener)
qed

lemma settings_handler_204:
  assumes ok: "fst (settings_handler L body s) = Status 204" and c: "consistent s"
  shows "live_handles (snd (settings_handler L body s)) = [length (heap s)]"
    and "length (heap (snd (settings_handler L body s))) = Suc (length (heap s))"
    and "phase (heap (snd (settings_handler L body s)) ! length (heap s)) = Connecting"
    and "consistent (snd (settings_handler L body s))"
proof -
  let ?s' = "snd (settings_handler L body s)"
  note t = settings_handler_ok [OF ok]
  note k = settings_try_ok [OF t c]
  show c': "consistent ?s'" using c by (rule consistent_settings_handler)
  show len: "length (heap ?s') = Suc (length (heap s))"
    unfolding k(4) by (simp add: length_closed_heap)
  show ph: "phase (heap ?s' ! length (heap s)) = Connecting"
    unfolding k(4) by (simp add: nth_append length_closed_heap)
  have ph': "phase (heap ?s' ! length (heap s)) \<noteq> Closed" using ph by simp
  show "live_handles ?s' = [length (heap s)]"
    using live_handles_new [OF c' len held_references [OF c' k(3)] ph'] .
qed

text \<open>
  C8. A configuration update puts into \<open>config\<close> the object made of the three
  properties read from the request body, a missing one as \<open>undefined\<close>; nothing of the
  old configuration is kept, and this happens before anything that can fail. After the
  update, as long as no other update arrives, no request, library event or \<open>exit\<close>
  changes \<open>config\<close>, \<open>rpcClient\<close> or \<open>wsClient\<close>, constructs a library object, or
  brings a closed object back; if the update left no handle held (the constructor
  raised), none becomes live. When the update returned 204, every earlier handle is
  closed and the new one is the only live handle; once that one fails (any event on it
  other than its becoming ready) no handle is live for as long as no other update
  arrives.
\<close>

theorem config_replaced_no_rollback:
  "(body \<noteq> Undefined \<and> body \<noteq> Null \<longrightarrow>
      config (snd (settings_handler L body (run L ops))) =
        JObj [(''clientId'', field_of body ''clientId''), (''mode'', field_of body ''mode''),
              (''agentUrl'', field_of body ''agentUrl'')])
   \<and> ((\<forall>x \<in> set xs. \<not> is_settings x) \<longrightarrow>
        manager (foldl (step L) (snd (settings_handler L body (run L ops))) xs)
          = manager (snd (settings_handler L body (run L ops)))
        \<and> length (heap (foldl (step L) (snd (settings_handler L body (run L ops))) xs))
          = length (heap (snd (settings_handler L body (run L ops))))
        \<and> (\<forall>h. phase_of (snd (settings_handler L body (run L ops))) h = Some Closed \<longrightarrow>
               phase_of (foldl (step L) (snd (settings_handler L body (run L ops))) xs) h = Some Closed)
        \<and> (held (snd (settings_handler L body (run L ops))) = None \<longrightarrow>
              live_handles (foldl (step L) (snd (settings_handler L body (run L ops))) xs) = [])
        \<and> (fst (settings_handler L body (run L ops)) = Status 204 \<longrightarrow>
              (\<forall>h < length (heap (run L ops)).
                  phase_of (snd (settings_handler L body (run L ops))) h = Some Closed)
              \<and> live_handles (snd (settings_handler L body (run L ops))) = [length (heap (run L ops))]
              \<and> (\<forall>e. e \<noteq> EvReady \<longrightarrow>
                    live_handles
                      (foldl (step L)
                         (fire (length (heap (run L ops))) e (snd (settings_handler L body (run L ops))))
                         xs) = [])))"
proof -
  let ?s = "run L ops"
  let ?s' = "snd (settings_handler L body ?s)"
  let ?n = "length (heap ?s)"
  have c: "consistent ?s" by (rule consistent_run)
  have c': "consistent ?s'" using c by (rule consistent_settings_handler)
  have 1: "config ?s' =
        JObj [(''clientId'', field_of body ''clientId''), (''mode'', field_of body ''mode''),
              (''agentUrl'', field_of body ''agentUrl'')]"
    if "body \<noteq> Undefined \<and> body \<noteq> Null"
    using that settings_handler_config [of body L ?s] by simp
  have 2: "manager (foldl (step L) ?s' xs) = manager ?s'
        \<and> length (heap (foldl (step L) ?s' xs)) = length (heap ?s')
        \<and> (\<forall>h. phase_of ?s' h = Some Closed \<longrightarrow> phase_of (foldl (step L) ?s' xs) h = Some Closed)"
    if "\<forall>x \<in> set xs. \<not> is_settings x"
    using other_steps [OF that c', where L = L] .
  have 4: "live_handles (foldl (step L) ?s' xs) = []"
    if n: "\<forall>x \<in> set xs. \<not> is_settings x" and none: "held ?s' = None"
  proof -
    have "idle ?s'" using c' none by (simp add: held_None unset_idle)
    then have "live_handles ?s' = []" by (simp add: idle_def)
    then show ?thesis by (rule stays_dead [OF n c'])
  qed
  have 3: "(\<forall>h < ?n. phase_of ?s' h = Some Closed)
              \<and> live_handles ?s' = [?n]
              \<and> (\<forall>e. e \<noteq> EvReady \<longrightarrow> live_handles (foldl (step L) (fire ?n e ?s') xs) = [])"
    if n: "\<forall>x \<in> set xs. \<not> is_settings x" and ok: "fst (settings_handler L body ?s) = Status 204"
  proof -
    note k = settings_handler_204 [OF ok c]
    have old: "phase_of ?s' h = Some Closed" if "h < ?n" for h
    proof -
      have "h \<notin> set (live_handles ?s')" using that k(1) by simp
      then show ?thesis using that k(2) by (simp add: live_handles_iff phase_of_def)
    qed
    have dead: "live_handles (foldl (step L) (fire ?n e ?s') xs) = []" if "e \<noteq> EvReady" for e
    proof -
      have nl: "?n < length (heap ?s')" using k(2) by simp
      have nu: "phase (heap ?s' ! ?n) \<noteq> Uninitialized" using k(3) by simp
      have new: "phase_of (fire ?n e ?s') ?n = Some Closed"
        by (rule fire_failure [OF nl nu that])
      have "phase_of (fire ?n e ?s') h = Some Closed" if "h < length (heap (fire ?n e ?s'))" for h
      proof (cases "h = ?n")
        case True
        then show ?thesis using new by simp
      next
        case False
        then have "h < ?n" using that k(2) by (simp add: fire_length)
        then show ?thesis using old fire_keeps_closed by blast
      qed
      then have "live_handles (fire ?n e ?s') = []" by (simp add: closed_everywhere)
      then show ?thesis using stays_dead [OF n consistent_fire [OF c']] by blast
    qed
    show ?thesis using old k(1) dead by blast
  qed
  show ?thesis using 1 2 3 4 by blast
qed

theorem config_replaced_no_rollback_witness:
  "config (snd (settings_handler quiet to_remote (run quiet []))) =
        JObj [(''clientId'', Undefined), (''mode'', JStr ''remote''), (''agentUrl'', JStr ''ws://agent'')]
   \<and> phase_of (snd (settings_handler quiet to_remote (run quiet []))) 0 = Some Closed
   \<and> live_handles (snd (settings_handler quiet to_remote (run quiet []))) = [1]
   \<and> live_handles
        (foldl (step quiet) (fire 1 EvError (snd (settings_handler quiet to_remote (run quiet []))))
           [Request (Update payload), Fire 0 EvReady, Request (Test 5), Exit]) = []
   \<and> manager (foldl (step quiet) (snd (settings_handler quiet to_remote (run quiet [])))
                 [Request (Update payload), Fire 0 EvReady, Request (Test 5), Exit])
       = manager (snd (settings_handler quiet to_remote (run quiet [])))"
proof -
  have b: "to_remote \<noteq> Undefined \<and> to_remote \<noteq> Null" by (simp add: to_remote_def)
  have f: "field_of to_remote ''clientId'' = Undefined" "field_of to_remote ''mode'' = JStr ''remote''"
    "field_of to_remote ''agentUrl'' = JStr ''ws://agent''"
    by (simp_all add: to_remote_def field_of_def)
  have n: "\<forall>x \<in> set [Request (Update payload), Fire 0 EvReady, Request (Test 5), Exit]. \<not> is_settings x"
    by simp
  have ok: "fst (settings_handler quiet to_remote (run quiet [])) = Status 204" by code_simp
  have h: "length (heap (run quiet [])) = 1" by code_simp
  have e: "EvError \<noteq> EvReady" by simp
  note t = config_replaced_no_rollback [of to_remote quiet "[]"
      "[Request (Update payload), Fire 0 EvReady, Request (Test 5), Exit]"]
  have t1: "config (snd (settings_handler quiet to_remote (run quiet []))) =
        JObj [(''clientId'', Undefined), (''mode'', JStr ''remote''), (''agentUrl'', JStr ''ws://agent'')]"
    using t b f by simp
  have t2: "phase_of (snd (settings_handler quiet to_remote (run quiet []))) 0 = Some Closed"
    using t n ok h by simp
  have t3: "live_handles (snd (settings_handler quiet to_remote (run quiet []))) = [1]"
    using t n ok h by simp
  have t4: "live_handles
        (foldl (step quiet) (fire 1 EvError (snd (settings_handler quiet to_remote (run quiet []))))
           [Request (Update payload), Fire 0 EvReady, Request (Test 5), Exit]) = []"
    using t n ok h e by auto
  have t5: "manager (foldl (step quiet) (snd (settings_handler quiet to_remote (run quiet [])))
                 [Request (Update payload), Fire 0 EvReady, Request (Test 5), Exit])
       = manager (snd (settings_handler quiet to_remote (run quiet [])))"
    using t n by blast
  show ?thesis using t1 t2 t3 t4 t5 by simp
qed

end
